theory Spec2Isabelle
  imports Main "HOL-Library.FSet" "HOL-Library.Product_Lexorder" "HOL-Library.Word"
begin

section \<open>The EPaxos instance state machine (epaxos/instance.go)\<close>

subsection \<open>Scalar types and messages\<close>

text \<open>
  Modelled from the spec: the package \<open>epaxospb\<close> (the declarations of \<open>ReplicaID\<close>,
  \<open>InstanceNum\<close>, \<open>SeqNum\<close>, \<open>Dependency\<close>, \<open>Command\<close> and of the six messages) is not
  among the sources. The spec gives the three numbers as non-negative integers, a
  dependency as the pair (replica id, instance number) and a command as opaque, so the
  command is a type parameter. The fields of the messages are the ones instance.go reads
  and writes. \<open>Command\<close> of an \<open>InstanceState\<close> is a pointer in the source
  (\<open>*pa.Command\<close>, \<open>&inst.cmd\<close>); \<open>None\<close> is the nil pointer.
\<close>

type_synonym ReplicaID = nat
type_synonym InstanceNum = nat
type_synonym SeqNum = nat
type_synonym Dependency = "ReplicaID \<times> InstanceNum"

record 'c InstanceState =
  Command :: "'c option"
  SeqNum :: SeqNum
  Deps :: "Dependency list"

datatype 'c message =
    PreAccept "'c InstanceState"
  | PreAcceptOK
  | PreAcceptReply (UpdatedSeqNum: SeqNum) (UpdatedDeps: "Dependency list")
  | Accept "'c InstanceState"
  | AcceptOK
  | Commit "'c InstanceState"

subsection \<open>The instance\<close>

text \<open>\<open>type instanceState int\<close> with the constants \<open>none\<close> = 0 ... \<open>executed\<close> = 4.\<close>

datatype instanceState = none | preAccepted | accepted | committed | executed

fun stateNum :: "instanceState \<Rightarrow> nat" where
  "stateNum none = 0"
| "stateNum preAccepted = 1"
| "stateNum accepted = 2"
| "stateNum committed = 3"
| "stateNum executed = 4"

text \<open>
  Modelled from the spec: the type \<open>tickingTimer\<close> and the registry operations
  \<open>makeTickingTimer\<close>, \<open>isSet\<close>, \<open>registerOneTimeTimer\<close>, \<open>unregisterTimer\<close> and the
  replica's tick are not among the sources. Spec 4.5: a one-shot logical timer with
  arm, cancel and is-armed; a tick decrements every armed timer and invokes the callback
  of a timer whose count reaches zero; a fired or cancelled timer may be armed again.
  The callback is not stored in the record: for the slow-path timer of an instance it is
  always the closure built by \<open>newInstance\<close> (\<open>slowPathTimerCallback\<close> below).
\<close>

record tickingTimer =
  timeout :: nat
  ticksLeft :: nat
  armed :: bool

text \<open>Modelled from the spec: \<open>makeTickingTimer\<close> (absent) builds an unarmed timer with the given
  timeout.\<close>

definition makeTickingTimer :: "nat \<Rightarrow> tickingTimer" where
  "makeTickingTimer n = \<lparr>timeout = n, ticksLeft = 0, armed = False\<rparr>"

text \<open>Modelled from the spec: \<open>isSet\<close> (absent) is the is-armed test of spec 4.5.\<close>

definition isSet :: "tickingTimer \<Rightarrow> bool" where
  "isSet t = armed t"

text \<open>Modelled from the spec: \<open>registerOneTimeTimer\<close> (absent) arms the timer for its timeout.\<close>

definition registerOneTimeTimer :: "tickingTimer \<Rightarrow> tickingTimer" where
  "registerOneTimeTimer t = t\<lparr>ticksLeft := timeout t, armed := True\<rparr>"

text \<open>Modelled from the spec: \<open>unregisterTimer\<close> (absent) cancels the timer.\<close>

definition unregisterTimer :: "tickingTimer \<Rightarrow> tickingTimer" where
  "unregisterTimer t = t\<lparr>armed := False\<rparr>"

text \<open>
  The struct \<open>instance\<close> (a keyword of Isabelle, hence \<open>Instance\<close>). The back pointer
  \<open>p\<close> is the environment \<open>epaxos\<close> below, passed to every function that uses it;
  \<open>ballot\<close> is never read or written in instance.go and is left out. \<open>deps\<close> is a Go map
  used as a set: \<open>None\<close> is the nil map, which reads as empty and panics on insertion.
  The two reply counters are Go \<open>int\<close>, 64 bits wide on the platforms the replica runs on:
  \<open>+\<close> on \<open>64 word\<close> wraps as \<open>++\<close> and \<open>+ 1\<close> do, and \<open>sint\<close> reads the signed value.
\<close>

record 'c Instance =
  r :: ReplicaID
  i :: InstanceNum
  cmd :: 'c
  seq :: SeqNum
  deps :: "Dependency fset option"
  state :: instanceState
  preAcceptReplies :: "64 word"
  differentReplies :: bool
  slowPathTimer :: tickingTimer
  acceptReplies :: "64 word"

text \<open>
  The replica \<open>epaxos\<close> is not among the sources; the three functions of it that the
  handlers call for a value are parameters.
\<close>

record 'c epaxos =
  quorum :: "64 word \<Rightarrow> bool"
  fastQuorum :: "64 word \<Rightarrow> bool"
  seqAndDepsForCommand :: "'c \<Rightarrow> SeqNum \<times> Dependency fset"

text \<open>
  The ways a call can panic, and what a handler emits: \<open>inst.broadcast\<close>, \<open>inst.reply\<close>,
  \<open>logger.Debugf\<close> and \<open>p.prepareToExecute\<close> only hand something to the replica, so each
  call is recorded as an effect, in the order of the calls.
\<close>

datatype error =
    UnexpectedState    \<comment> \<open>\<open>logger.Panicf\<close> in \<open>assertState\<close>\<close>
  | NilMapAssignment   \<comment> \<open>Go runtime: assignment to entry in nil map\<close>
  | NilDereference     \<comment> \<open>Go runtime: \<open>*pa.Command\<close> with a nil pointer\<close>

datatype 'c effect =
    Broadcast "'c message"
  | Reply "'c message"
  | Debugf
  | PrepareToExecute

definition slowPathTimout :: nat where
  "slowPathTimout = 2"

text \<open>\<open>c0\<close> is Go's zero value of \<open>pb.Command\<close>.\<close>

definition newInstance :: "'c \<Rightarrow> ReplicaID \<Rightarrow> InstanceNum \<Rightarrow> 'c Instance" where
  "newInstance c0 rid num =
     \<lparr>r = rid, i = num, cmd = c0, seq = 0, deps = None, state = none,
      preAcceptReplies = 0, differentReplies = False,
      slowPathTimer = makeTickingTimer slowPathTimout, acceptReplies = 0\<rparr>"

subsection \<open>Executable functions\<close>

definition ExecutesBefore :: "'c Instance \<Rightarrow> 'c Instance \<Rightarrow> bool" where
  "ExecutesBefore inst instB =
     (if seq inst \<noteq> seq instB then seq inst < seq instB else r inst < r instB)"

subsection \<open>Utility functions\<close>

fun isStates :: "'c Instance \<Rightarrow> instanceState list \<Rightarrow> bool" where
  "isStates inst [] = False"
| "isStates inst (s # ss) = (if s = state inst then True else isStates inst ss)"

definition assertState :: "'c Instance \<Rightarrow> instanceState list \<Rightarrow> error + unit" where
  "assertState inst valid = (if \<not> isStates inst valid then Inl UnexpectedState else Inr ())"

text \<open>\<open>len\<close> of a map (0 for the nil map) and ranging over it in sorted order.\<close>

definition lenDeps :: "Dependency fset option \<Rightarrow> nat" where
  "lenDeps m = (case m of None \<Rightarrow> 0 | Some d \<Rightarrow> fcard d)"

text \<open>
  \<open>depSliceFromMap\<close> collects the keys and sorts them. The order of \<open>pb.Dependencies\<close> that
  \<open>sort.Sort\<close> uses is not among the sources; spec 4.3 gives it as replica id ascending,
  then instance number ascending, which is the lexicographic order of the pairs.
\<close>

definition depSliceFromMap :: "Dependency fset option \<Rightarrow> Dependency list" where
  "depSliceFromMap m = (case m of None \<Rightarrow> [] | Some d \<Rightarrow> sorted_list_of_fset d)"

definition depSlice :: "'c Instance \<Rightarrow> Dependency list" where
  "depSlice inst = depSliceFromMap (deps inst)"

definition instanceStateWithoutCommand :: "'c Instance \<Rightarrow> 'c InstanceState" where
  "instanceStateWithoutCommand inst = \<lparr>Command = None, SeqNum = seq inst, Deps = depSlice inst\<rparr>"

definition instanceState :: "'c Instance \<Rightarrow> 'c InstanceState" where
  "instanceState inst = (instanceStateWithoutCommand inst)\<lparr>Command := Some (cmd inst)\<rparr>"

text \<open>The loop \<open>for _, dep := range ds { m[dep] = struct{}{} }\<close>.\<close>

fun insertAll :: "Dependency list \<Rightarrow> Dependency fset option \<Rightarrow> error + Dependency fset option" where
  "insertAll [] m = Inr m"
| "insertAll (dep # ds) None = Inl NilMapAssignment"
| "insertAll (dep # ds) (Some d) = insertAll ds (Some (finsert dep d))"

definition updateInstanceState ::
  "'c Instance \<Rightarrow> SeqNum \<Rightarrow> Dependency list \<Rightarrow> error + (bool \<times> 'c Instance)" where
  "updateInstanceState inst newSeq newDeps =
     (let sameSeq = (seq inst = newSeq);
          inst1 = (if \<not> sameSeq then inst\<lparr>seq := newSeq\<rparr> else inst);
          sameDeps = (length newDeps = lenDeps (deps inst1));
          changed = (\<not> (sameSeq \<and> sameDeps))
      in if \<not> sameDeps
         then (case insertAll newDeps (deps inst1) of
                 Inl e \<Rightarrow> Inl e
               | Inr m \<Rightarrow> Inr (changed, inst1\<lparr>deps := m\<rparr>))
         else Inr (changed, inst1))"

subsection \<open>State transitions\<close>

definition broadcastPreAccept :: "'c Instance \<Rightarrow> 'c effect list" where
  "broadcastPreAccept inst = [Broadcast (PreAccept (instanceState inst))]"

definition broadcastAccept :: "'c Instance \<Rightarrow> 'c effect list" where
  "broadcastAccept inst = [Broadcast (Accept (instanceStateWithoutCommand inst))]"

definition broadcastCommit :: "'c Instance \<Rightarrow> 'c effect list" where
  "broadcastCommit inst = [Broadcast (Commit (instanceState inst))]"

definition transitionToPreAccept :: "'c Instance \<Rightarrow> error + ('c Instance \<times> 'c effect list)" where
  "transitionToPreAccept inst =
     (case assertState inst [none] of
        Inl e \<Rightarrow> Inl e
      | Inr _ \<Rightarrow> (let inst1 = inst\<lparr>state := preAccepted\<rparr>
                  in Inr (inst1, broadcastPreAccept inst1)))"

definition transitionToAccept :: "'c Instance \<Rightarrow> error + ('c Instance \<times> 'c effect list)" where
  "transitionToAccept inst =
     (case assertState inst [preAccepted] of
        Inl e \<Rightarrow> Inl e
      | Inr _ \<Rightarrow> (let inst1 = inst\<lparr>state := accepted\<rparr>
                  in Inr (inst1, broadcastAccept inst1)))"

definition transitionToCommit :: "'c Instance \<Rightarrow> error + ('c Instance \<times> 'c effect list)" where
  "transitionToCommit inst =
     (case assertState inst [preAccepted, accepted] of
        Inl e \<Rightarrow> Inl e
      | Inr _ \<Rightarrow> (let inst1 = inst\<lparr>state := committed\<rparr>
                  in Inr (inst1, broadcastCommit inst1 @ [PrepareToExecute])))"

text \<open>The closure \<open>func() { inst.transitionToAccept() }\<close> given to the timer by \<open>newInstance\<close>.\<close>

definition slowPathTimerCallback :: "'c Instance \<Rightarrow> error + ('c Instance \<times> 'c effect list)" where
  "slowPathTimerCallback inst = transitionToAccept inst"

subsection \<open>Message handlers\<close>

text \<open>Modelled from the spec: \<open>pb.MaxSeqNum\<close> (absent) is the maximum of two sequence numbers
  (spec 4.2.2: \<open>seq = max(msg.seq, maxLocalSeq + 1)\<close>, and the comment above its call).\<close>

definition MaxSeqNum :: "SeqNum \<Rightarrow> SeqNum \<Rightarrow> SeqNum" where
  "MaxSeqNum a b = max a b"

definition onPreAccept ::
  "'c epaxos \<Rightarrow> 'c Instance \<Rightarrow> 'c InstanceState \<Rightarrow> error + ('c Instance \<times> 'c effect list)" where
  "onPreAccept p inst pa =
     (if \<not> isStates inst [none] then Inr (inst, [Debugf])
      else
        let inst1 = inst\<lparr>state := preAccepted\<rparr> in
        case Command pa of
          None \<Rightarrow> Inl NilDereference
        | Some c \<Rightarrow>
            (case seqAndDepsForCommand p c of (maxLocalSeq, localDeps) \<Rightarrow>
               let inst2 = inst1\<lparr>cmd := c\<rparr>;
                   inst3 = inst2\<lparr>seq := MaxSeqNum (SeqNum pa) (maxLocalSeq + 1)\<rparr>
               in case insertAll (Deps pa) (Some localDeps) of
                    Inl e \<Rightarrow> Inl e
                  | Inr depsUnion \<Rightarrow>
                      let inst4 = inst3\<lparr>deps := depsUnion\<rparr>
                      in if seq inst4 = SeqNum pa \<and> lenDeps (deps inst4) = length (Deps pa)
                         then Inr (inst4, [Reply PreAcceptOK])
                         else Inr (inst4, [Reply (PreAcceptReply (seq inst4)
                                                    (depSliceFromMap depsUnion))])))"

definition fastPathAvailable :: "'c Instance \<Rightarrow> bool" where
  "fastPathAvailable inst = (\<not> differentReplies inst)"

definition onEitherPreAcceptReply ::
  "'c epaxos \<Rightarrow> 'c Instance \<Rightarrow> error + ('c Instance \<times> 'c effect list)" where
  "onEitherPreAcceptReply p inst =
     (let replies = preAcceptReplies inst + 1;
          takeFastPath = (\<not> differentReplies inst \<and> fastQuorum p replies);
          takeSlowPath = quorum p replies
      in if takeFastPath
         then transitionToCommit (inst\<lparr>slowPathTimer := unregisterTimer (slowPathTimer inst)\<rparr>)
         else if takeSlowPath
         then (if \<not> fastPathAvailable inst
               then transitionToAccept (inst\<lparr>slowPathTimer := unregisterTimer (slowPathTimer inst)\<rparr>)
               else if \<not> isSet (slowPathTimer inst)
               then Inr (inst\<lparr>slowPathTimer := registerOneTimeTimer (slowPathTimer inst)\<rparr>, [])
               else Inr (inst, []))
         else Inr (inst, []))"

definition onPreAcceptOK ::
  "'c epaxos \<Rightarrow> 'c Instance \<Rightarrow> error + ('c Instance \<times> 'c effect list)" where
  "onPreAcceptOK p inst =
     (if \<not> isStates inst [preAccepted] then Inr (inst, [Debugf])
      else onEitherPreAcceptReply p (inst\<lparr>preAcceptReplies := preAcceptReplies inst + 1\<rparr>))"

definition onPreAcceptReply ::
  "'c epaxos \<Rightarrow> 'c Instance \<Rightarrow> SeqNum \<Rightarrow> Dependency list \<Rightarrow> error + ('c Instance \<times> 'c effect list)" where
  "onPreAcceptReply p inst updatedSeqNum updatedDeps =
     (if \<not> isStates inst [preAccepted] then Inr (inst, [Debugf])
      else case updateInstanceState inst updatedSeqNum updatedDeps of
             Inl e \<Rightarrow> Inl e
           | Inr (changed, inst1) \<Rightarrow>
               let inst2 = inst1\<lparr>differentReplies := (differentReplies inst1 \<or> changed)\<rparr>;
                   inst3 = inst2\<lparr>preAcceptReplies := preAcceptReplies inst2 + 1\<rparr>
               in onEitherPreAcceptReply p inst3)"

definition onAccept ::
  "'c epaxos \<Rightarrow> 'c Instance \<Rightarrow> 'c InstanceState \<Rightarrow> error + ('c Instance \<times> 'c effect list)" where
  "onAccept p inst a =
     (if \<not> isStates inst [none, preAccepted] then Inr (inst, [Debugf])
      else case updateInstanceState (inst\<lparr>state := accepted\<rparr>) (SeqNum a) (Deps a) of
             Inl e \<Rightarrow> Inl e
           | Inr (_, inst1) \<Rightarrow> Inr (inst1, [Reply AcceptOK]))"

definition onAcceptOK ::
  "'c epaxos \<Rightarrow> 'c Instance \<Rightarrow> error + ('c Instance \<times> 'c effect list)" where
  "onAcceptOK p inst =
     (if \<not> isStates inst [accepted] then Inr (inst, [Debugf])
      else let inst1 = inst\<lparr>acceptReplies := acceptReplies inst + 1\<rparr>
           in if quorum p (acceptReplies inst1 + 1) then transitionToCommit inst1
              else Inr (inst1, []))"

definition onCommit ::
  "'c epaxos \<Rightarrow> 'c Instance \<Rightarrow> 'c InstanceState \<Rightarrow> error + ('c Instance \<times> 'c effect list)" where
  "onCommit p inst c =
     (if \<not> isStates inst [none, preAccepted, accepted] then Inr (inst, [Debugf])
      else let inst1 = inst\<lparr>state := committed\<rparr> in
           case Command c of
             None \<Rightarrow> Inl NilDereference
           | Some c' \<Rightarrow>
               (case updateInstanceState (inst1\<lparr>cmd := c'\<rparr>) (SeqNum c) (Deps c) of
                  Inl e \<Rightarrow> Inl e
                | Inr (_, inst2) \<Rightarrow> Inr (inst2, [PrepareToExecute])))"

subsection \<open>Events of one instance\<close>

text \<open>
  Modelled from the spec: the replica's message dispatch is not among the sources.
  Spec 4.1: an inbound message is dispatched by its kind to the corresponding handler of
  the instance it names.
\<close>

fun deliver ::
  "'c epaxos \<Rightarrow> 'c Instance \<Rightarrow> 'c message \<Rightarrow> error + ('c Instance \<times> 'c effect list)" where
  "deliver p inst (PreAccept pa) = onPreAccept p inst pa"
| "deliver p inst PreAcceptOK = onPreAcceptOK p inst"
| "deliver p inst (PreAcceptReply s ds) = onPreAcceptReply p inst s ds"
| "deliver p inst (Accept a) = onAccept p inst a"
| "deliver p inst AcceptOK = onAcceptOK p inst"
| "deliver p inst (Commit c) = onCommit p inst c"

text \<open>
  Modelled from the spec: the replica's tick is not among the sources. Spec 4.5: a tick
  decrements every armed timer and invokes the callback of a timer whose count reaches
  zero; the timer is one-shot, so firing disarms it. For one instance that is its
  slow-path timer and the callback given by \<open>newInstance\<close>.
\<close>

definition tick :: "'c Instance \<Rightarrow> error + ('c Instance \<times> 'c effect list)" where
  "tick inst =
     (let t = slowPathTimer inst
      in if \<not> armed t then Inr (inst, [])
         else if ticksLeft t - 1 = 0
         then slowPathTimerCallback (inst\<lparr>slowPathTimer := t\<lparr>ticksLeft := 0, armed := False\<rparr>\<rparr>)
         else Inr (inst\<lparr>slowPathTimer := t\<lparr>ticksLeft := ticksLeft t - 1\<rparr>\<rparr>, []))"

text \<open>
  Modelled from the spec: the execution engine (\<open>prepareToExecute\<close>, \<open>execute\<close>) is not among
  the sources. Spec 4.4: the executable graph holds the instances that are Committed and
  not yet Executed, and executing one marks it Executed; other instances are not touched.
\<close>

definition execute :: "'c Instance \<Rightarrow> 'c Instance" where
  "execute inst = (if state inst = committed then inst\<lparr>state := executed\<rparr> else inst)"

datatype 'c event = Deliver "'c message" | Tick | Execute

fun step ::
  "'c epaxos \<Rightarrow> 'c Instance \<Rightarrow> 'c event \<Rightarrow> error + ('c Instance \<times> 'c effect list)" where
  "step p inst (Deliver m) = deliver p inst m"
| "step p inst Tick = tick inst"
| "step p inst Execute = Inr (execute inst, [])"

fun run ::
  "'c epaxos \<Rightarrow> 'c Instance \<Rightarrow> 'c event list \<Rightarrow> error + ('c Instance \<times> 'c effect list)" where
  "run p inst [] = Inr (inst, [])"
| "run p inst (ev # evs) =
     (case step p inst ev of
        Inl e \<Rightarrow> Inl e
      | Inr (inst1, out1) \<Rightarrow>
          (case run p inst1 evs of
             Inl e \<Rightarrow> Inl e
           | Inr (inst2, out2) \<Rightarrow> Inr (inst2, out1 @ out2)))"

text \<open>The transitions of the state diagram, by the event that takes them.\<close>

fun legalTransition :: "'c event \<Rightarrow> instanceState \<Rightarrow> instanceState \<Rightarrow> bool" where
  "legalTransition ev none preAccepted = True"
| "legalTransition ev preAccepted accepted = True"
| "legalTransition (Deliver (Accept a)) none accepted = True"
| "legalTransition ev preAccepted committed = True"
| "legalTransition ev accepted committed = True"
| "legalTransition (Deliver (Commit c)) none committed = True"
| "legalTransition ev committed executed = True"
| "legalTransition ev s s' = False"

text \<open>
  The slow-path timer is guarded when it is armed only on a PreAccepted instance.
\<close>

definition timerGuarded :: "'c Instance \<Rightarrow> bool" where
  "timerGuarded inst = (if armed (slowPathTimer inst) then state inst = preAccepted else True)"

text \<open>
  Modelled from the spec: which replica receives which message is decided by the replica's
  routing, not among the sources. Spec 4.1 and 4.2: PreAccept, Accept and Commit for an
  instance are broadcast by its command leader to the other replicas, and the replies
  PreAcceptOK, PreAcceptReply and AcceptOK go back to the leader; nothing else sends them
  (there is no recovery). So the leader's own instance never receives an Accept or a
  Commit, and an instance on another replica never receives a reply.
\<close>

fun leaderEvent :: "'c event \<Rightarrow> bool" where
  "leaderEvent (Deliver (Accept a)) = False"
| "leaderEvent (Deliver (Commit c)) = False"
| "leaderEvent ev = True"

text \<open>
  Modelled from the spec: the events of an instance on a replica that is not its command
  leader (spec 4.1, 4.2): everything but the three replies, which go to the leader only.
\<close>

fun followerEvent :: "'c event \<Rightarrow> bool" where
  "followerEvent (Deliver PreAcceptOK) = False"
| "followerEvent (Deliver (PreAcceptReply s ds)) = False"
| "followerEvent (Deliver AcceptOK) = False"
| "followerEvent ev = True"

subsection \<open>Execution of one strongly connected component\<close>

text \<open>
  Modelled from the spec: the execution engine that sorts and executes the members of a
  strongly connected component is not among the sources. Spec 4.4, step 3: the members
  are sorted by (seq ascending, replica id ascending) and executed in that order. The
  sort is by insertion with the source's comparison \<open>ExecutesBefore\<close> as its order:
  \<open>insertExecutable\<close> puts an instance in front of the first one it executes before.
\<close>

fun insertExecutable :: "'c Instance \<Rightarrow> 'c Instance list \<Rightarrow> 'c Instance list" where
  "insertExecutable x [] = [x]"
| "insertExecutable x (y # ys) =
     (if ExecutesBefore x y then x # y # ys else y # insertExecutable x ys)"

text \<open>
  Modelled from the spec: the order in which the members of one component are executed
  (spec 4.4, step 3), the head of the list first.
\<close>

fun executionOrder :: "'c Instance list \<Rightarrow> 'c Instance list" where
  "executionOrder [] = []"
| "executionOrder (x # xs) = insertExecutable x (executionOrder xs)"


subsection \<open>Concrete environments and instances\<close>

text \<open>
  Modelled from the spec: the quorum predicates of the replica are not among the sources.
  Spec 4.1 gives both as thresholds on the number of replies counted with the leader
  (\<open>n \<ge> f + 1\<close> for the slow path, \<open>n \<ge> f + \<lfloor>(f + 1) / 2\<rfloor>\<close> for the fast path, with the
  examples slow 2 and fast 3 for three replicas, slow 3 and fast 4 for five). The two
  thresholds are arguments here, compared with the signed value of the count; \<open>sd\<close> is
  the answer of \<open>seqAndDepsForCommand\<close>.
\<close>

definition thresholdEnv :: "int \<Rightarrow> int \<Rightarrow> SeqNum \<times> Dependency fset \<Rightarrow> 'c epaxos" where
  "thresholdEnv slow fast sd =
     \<lparr>quorum = (\<lambda>n. slow \<le> sint n), fastQuorum = (\<lambda>n. fast \<le> sint n),
      seqAndDepsForCommand = (\<lambda>c. sd)\<rparr>"

text \<open>
  Modelled from the spec: the propose path of the replica is not among the sources.
  Spec 4.2.1: the command leader allocates the instance, sets command, seq and deps and
  moves it to PreAccepted. \<open>leaderInstance n d\<close> is instance 1 of replica 0 with command 7,
  seq 1 and no dependencies, after \<open>n\<close> tallied replies, \<open>d\<close> telling whether one of
  them carried new information.
\<close>

definition leaderInstance :: "64 word \<Rightarrow> bool \<Rightarrow> nat Instance" where
  "leaderInstance n d =
     (newInstance 0 0 1)\<lparr>cmd := 7, seq := 1, deps := Some {||}, state := preAccepted,
        preAcceptReplies := n, differentReplies := d\<rparr>"


section \<open>Properties\<close>

subsection \<open>Auxiliary facts\<close>

lemma insertAll_Some: "insertAll ds (Some d) = Inr (Some (d |\<union>| fset_of_list ds))"
  by (induction ds arbitrary: d) auto




lemma onPreAccept_acts:
  assumes "state inst = none" "Command pa = Some c" "seqAndDepsForCommand p c = (m, L)"
  shows "onPreAccept p inst pa =
     Inr (inst\<lparr>state := preAccepted, cmd := c, seq := max (SeqNum pa) (m + 1),
               deps := Some (L |\<union>| fset_of_list (Deps pa))\<rparr>,
          [Reply (if max (SeqNum pa) (m + 1) = SeqNum pa
                     \<and> fcard (L |\<union>| fset_of_list (Deps pa)) = length (Deps pa)
                  then PreAcceptOK
                  else PreAcceptReply (max (SeqNum pa) (m + 1))
                         (sorted_list_of_fset (L |\<union>| fset_of_list (Deps pa))))])"
  using assms
  by (simp add: onPreAccept_def insertAll_Some MaxSeqNum_def lenDeps_def depSliceFromMap_def Let_def)

lemma onPreAccept_ignored:
  "state inst \<noteq> none \<Longrightarrow> onPreAccept p inst pa = Inr (inst, [Debugf])"
  by (simp add: onPreAccept_def)

lemma updateInstanceState_Some:
  "deps inst = Some d \<Longrightarrow> updateInstanceState inst newSeq newDeps =
    Inr (seq inst \<noteq> newSeq \<or> length newDeps \<noteq> fcard d,
         inst\<lparr>seq := newSeq,
              deps := (if length newDeps = fcard d then Some d
                       else Some (d |\<union>| fset_of_list newDeps))\<rparr>)"
  by (auto simp: updateInstanceState_def lenDeps_def Let_def insertAll_Some)

lemma updateInstanceState_None:
  "deps inst = None \<Longrightarrow> updateInstanceState inst newSeq newDeps =
    (if newDeps = [] then Inr (seq inst \<noteq> newSeq, inst\<lparr>seq := newSeq\<rparr>)
     else Inl NilMapAssignment)"
  by (cases newDeps) (auto simp: updateInstanceState_def lenDeps_def Let_def)

lemma updateInstanceState_frame:
  assumes "updateInstanceState inst newSeq newDeps = Inr (ch, inst')"
  shows "state inst' = state inst \<and> cmd inst' = cmd inst \<and>
         slowPathTimer inst' = slowPathTimer inst \<and>
         preAcceptReplies inst' = preAcceptReplies inst \<and>
         differentReplies inst' = differentReplies inst"
proof (cases "deps inst")
  case None
  with assms show ?thesis by (auto simp: updateInstanceState_None split: if_splits)
next
  case (Some d)
  with assms show ?thesis by (auto simp: updateInstanceState_Some)
qed

lemma onEitherPreAcceptReply_state:
  assumes "onEitherPreAcceptReply p inst = Inr (inst', out)"
  shows "(state inst' = state inst
          \<or> (state inst = preAccepted \<and> (state inst' = accepted \<or> state inst' = committed))
          \<or> (state inst = accepted \<and> state inst' = committed))
         \<and> seq inst' = seq inst \<and> deps inst' = deps inst \<and> cmd inst' = cmd inst"
  using assms
  by (auto simp: onEitherPreAcceptReply_def transitionToCommit_def transitionToAccept_def
      assertState_def Let_def split: if_splits)

lemma deliver_legal:
  assumes "deliver p a m = Inr (b, out)"
  shows "state b = state a \<or> legalTransition (Deliver m) (state a) (state b)"
proof (cases m)
  case (PreAccept pa)
  with assms show ?thesis
    by (auto simp: onPreAccept_def Let_def insertAll_Some split: if_splits option.splits prod.splits)
next
  case PreAcceptOK
  with assms show ?thesis
    by (auto simp: onPreAcceptOK_def split: if_splits dest!: onEitherPreAcceptReply_state)
next
  case (PreAcceptReply s ds)
  with assms show ?thesis
    by (auto simp: onPreAcceptReply_def Let_def split: if_splits sum.splits prod.splits
        dest!: onEitherPreAcceptReply_state updateInstanceState_frame)
next
  case (Accept x)
  with assms show ?thesis
    by (auto simp: onAccept_def split: if_splits sum.splits prod.splits
        dest!: updateInstanceState_frame)
next
  case AcceptOK
  with assms show ?thesis
    by (auto simp: onAcceptOK_def transitionToCommit_def assertState_def Let_def split: if_splits)
next
  case (Commit x)
  with assms show ?thesis
    by (auto simp: onCommit_def Let_def split: if_splits sum.splits prod.splits option.splits
        dest!: updateInstanceState_frame)
qed

lemma step_legal:
  assumes "step p a ev = Inr (b, out)"
  shows "state b = state a \<or> legalTransition ev (state a) (state b)"
proof (cases ev)
  case (Deliver m)
  with assms show ?thesis using deliver_legal[of p a m b out] by simp
next
  case Tick
  with assms show ?thesis
    by (auto simp: tick_def slowPathTimerCallback_def transitionToAccept_def assertState_def Let_def
        split: if_splits)
next
  case Execute
  with assms show ?thesis by (auto simp: execute_def)
qed

lemma legalTransition_increases: "legalTransition ev s s' \<Longrightarrow> stateNum s < stateNum s'"
  by (induction ev s s' rule: legalTransition.induct) auto

lemma step_mono: "step p a ev = Inr (b, out) \<Longrightarrow> stateNum (state a) \<le> stateNum (state b)"
  using step_legal[of p a ev b out] legalTransition_increases[of ev "state a" "state b"] by auto

lemma run_mono: "run p a evs = Inr (b, out) \<Longrightarrow> stateNum (state a) \<le> stateNum (state b)"
proof (induction evs arbitrary: a out)
  case Nil
  then show ?case by simp
next
  case (Cons ev evs)
  then show ?case
    by (auto split: sum.splits prod.splits dest!: step_mono intro: le_trans)
qed

lemma run_append:
  "run p a (xs @ ys) =
     (case run p a xs of Inl e \<Rightarrow> Inl e
      | Inr (b, o1) \<Rightarrow> (case run p b ys of Inl e \<Rightarrow> Inl e | Inr (c, o2) \<Rightarrow> Inr (c, o1 @ o2)))"
  by (induction xs arbitrary: a) (auto split: sum.splits prod.splits)

lemma deliver_frozen:
  assumes "state inst = committed \<or> state inst = executed"
  shows "deliver p inst m = Inr (inst, [Debugf])"
  using assms
  by (cases m)
     (auto simp: onPreAccept_def onPreAcceptOK_def onPreAcceptReply_def onAccept_def
        onAcceptOK_def onCommit_def)

lemma step_frozen:
  assumes "state a = committed \<or> state a = executed" "step p a ev = Inr (b, out)"
  shows "seq b = seq a \<and> deps b = deps a \<and> cmd b = cmd a \<and>
         (state b = committed \<or> state b = executed)"
proof (cases ev)
  case (Deliver m)
  with assms deliver_frozen[of a p m] show ?thesis by auto
next
  case Tick
  with assms show ?thesis
    by (auto simp: tick_def slowPathTimerCallback_def transitionToAccept_def assertState_def
        Let_def split: if_splits)
next
  case Execute
  with assms show ?thesis by (auto simp: execute_def)
qed

lemma run_frozen:
  assumes "state a = committed \<or> state a = executed" "run p a evs = Inr (b, out)"
  shows "seq b = seq a \<and> deps b = deps a \<and> cmd b = cmd a"
  using assms
proof (induction evs arbitrary: a out)
  case Nil
  then show ?case by simp
next
  case (Cons ev evs)
  from Cons.prems(2) obtain a1 o1 o2 where
    s: "step p a ev = Inr (a1, o1)" and rn: "run p a1 evs = Inr (b, o2)"
    by (auto split: sum.splits prod.splits)
  from step_frozen[OF Cons.prems(1) s] Cons.IH[OF _ rn] show ?case by simp
qed

lemma run_total_frozen:
  assumes "state a = committed \<or> state a = executed" "Tick \<notin> set evs"
  shows "\<exists>b out. run p a evs = Inr (b, out)"
  using assms
proof (induction evs arbitrary: a)
  case Nil
  then show ?case by simp
next
  case (Cons ev evs)
  have "\<exists>a1 o1. step p a ev = Inr (a1, o1)"
  proof (cases ev)
    case (Deliver m)
    then show ?thesis using deliver_frozen[OF Cons.prems(1)] by simp
  next
    case Tick
    with Cons.prems(2) show ?thesis by simp
  next
    case Execute
    then show ?thesis by simp
  qed
  then obtain a1 o1 where s: "step p a ev = Inr (a1, o1)" by blast
  from step_frozen[OF Cons.prems(1) s] have "state a1 = committed \<or> state a1 = executed" by simp
  from Cons.IH[OF this] Cons.prems(2) obtain b o2 where "run p a1 evs = Inr (b, o2)" by auto
  with s show ?case by simp
qed

lemma depSliceFromMap_empty [simp]: "depSliceFromMap (Some {||}) = []"
  by (simp add: depSliceFromMap_def sorted_list_of_fset.rep_eq)

lemma onEitherPreAcceptReply_waits:
  assumes "state inst = preAccepted" "\<not> differentReplies inst"
    "quorum p (preAcceptReplies inst + 1)" "\<not> fastQuorum p (preAcceptReplies inst + 1)"
  shows "onEitherPreAcceptReply p inst =
           (if isSet (slowPathTimer inst) then Inr (inst, [])
            else Inr (inst\<lparr>slowPathTimer := registerOneTimeTimer (slowPathTimer inst)\<rparr>, []))"
  using assms by (simp add: onEitherPreAcceptReply_def fastPathAvailable_def Let_def)

lemma tick_wait:
  assumes "armed (slowPathTimer inst)" "ticksLeft (slowPathTimer inst) = 2"
  shows "tick inst = Inr (inst\<lparr>slowPathTimer := (slowPathTimer inst)\<lparr>ticksLeft := 1\<rparr>\<rparr>, [])"
  using assms by (simp add: tick_def Let_def)

lemma tick_fire:
  assumes "armed (slowPathTimer inst)" "ticksLeft (slowPathTimer inst) = 1"
    "state inst = preAccepted"
  shows "tick inst =
           Inr (inst\<lparr>slowPathTimer := (slowPathTimer inst)\<lparr>ticksLeft := 0, armed := False\<rparr>,
                     state := accepted\<rparr>,
                [Broadcast (Accept (instanceStateWithoutCommand inst))])"
  using assms
  by (simp add: tick_def Let_def slowPathTimerCallback_def transitionToAccept_def assertState_def
      broadcastAccept_def instanceStateWithoutCommand_def depSlice_def)

lemma updateInstanceState_changed:
  assumes "updateInstanceState inst newSeq newDeps = Inr (ch, inst')"
  shows "ch = (seq inst \<noteq> newSeq \<or> length newDeps \<noteq> lenDeps (deps inst))"
  using assms
  by (auto simp: updateInstanceState_def Let_def split: if_splits sum.splits)

lemma onEitherPreAcceptReply_fast:
  assumes "state inst = preAccepted" "\<not> differentReplies inst" "fastQuorum p (preAcceptReplies inst + 1)"
  shows "onEitherPreAcceptReply p inst =
              Inr (inst\<lparr>state := committed, slowPathTimer := unregisterTimer (slowPathTimer inst)\<rparr>,
                   [Broadcast (Commit (instanceState inst)), PrepareToExecute])"
  using assms
  by (simp add: onEitherPreAcceptReply_def transitionToCommit_def
      assertState_def broadcastCommit_def instanceState_def
      instanceStateWithoutCommand_def depSlice_def Let_def)

lemma onEitherPreAcceptReply_slow:
  assumes "state inst = preAccepted" "differentReplies inst" "quorum p (preAcceptReplies inst + 1)"
  shows "onEitherPreAcceptReply p inst =
              Inr (inst\<lparr>state := accepted, slowPathTimer := unregisterTimer (slowPathTimer inst)\<rparr>,
                   [Broadcast (Accept (instanceStateWithoutCommand inst))])"
  using assms
  by (simp add: onEitherPreAcceptReply_def transitionToAccept_def
      assertState_def broadcastAccept_def 
      instanceStateWithoutCommand_def depSlice_def fastPathAvailable_def Let_def)

lemma replies_wrap_at_max_int:
  "sint (preAcceptReplies (leaderInstance 9223372036854775807 False) + 1) = - 9223372036854775808 \<and>
   onEitherPreAcceptReply (thresholdEnv 3 4 (0, {||})) (leaderInstance 9223372036854775807 False)
     = Inr (leaderInstance 9223372036854775807 False, [])"
  by (simp add: onEitherPreAcceptReply_def thresholdEnv_def leaderInstance_def Let_def)

lemma onEitherPreAcceptReply_guarded:
  assumes "state a = preAccepted"
  shows "onEitherPreAcceptReply p a \<noteq> Inl UnexpectedState \<and>
         (onEitherPreAcceptReply p a = Inr (b, out) \<longrightarrow> timerGuarded b)"
  using assms
  by (auto simp: onEitherPreAcceptReply_def transitionToCommit_def transitionToAccept_def
      assertState_def timerGuarded_def unregisterTimer_def registerOneTimeTimer_def Let_def
      split: if_splits)

lemma updateInstanceState_no_assert:
  "updateInstanceState a s ds \<noteq> Inl UnexpectedState"
proof (cases "deps a")
  case None
  then show ?thesis by (simp add: updateInstanceState_None)
next
  case (Some d)
  then show ?thesis by (simp add: updateInstanceState_Some)
qed

lemma deliver_guarded:
  assumes "timerGuarded a" "leaderEvent (Deliver m)"
  shows "deliver p a m \<noteq> Inl UnexpectedState \<and>
         (deliver p a m = Inr (b, out) \<longrightarrow> timerGuarded b)"
proof (cases m)
  case (PreAccept pa)
  with assms show ?thesis
    by (auto simp: onPreAccept_def Let_def insertAll_Some timerGuarded_def
        split: if_splits option.splits prod.splits)
next
  case PreAcceptOK
  show ?thesis
  proof (cases "state a = preAccepted")
    case True
    then show ?thesis
      using onEitherPreAcceptReply_guarded[of "a\<lparr>preAcceptReplies := preAcceptReplies a + 1\<rparr>" p b out]
      by (simp add: PreAcceptOK onPreAcceptOK_def)
  next
    case False
    with assms show ?thesis by (auto simp: PreAcceptOK onPreAcceptOK_def)
  qed
next
  case (PreAcceptReply s ds)
  show ?thesis
  proof (cases "state a = preAccepted")
    case True
    show ?thesis
    proof (cases "updateInstanceState a s ds")
      case (Inl e)
      with True updateInstanceState_no_assert[of a s ds] show ?thesis
        by (simp add: PreAcceptReply onPreAcceptReply_def)
    next
      case (Inr x)
      obtain ch u where x: "x = (ch, u)" by (cases x)
      from Inr x updateInstanceState_frame[of a s ds ch u] True
      have su: "state u = preAccepted" by simp
      let ?u = "u\<lparr>differentReplies := (differentReplies u \<or> ch),
                    preAcceptReplies := preAcceptReplies u + 1\<rparr>"
      have "onPreAcceptReply p a s ds = onEitherPreAcceptReply p ?u"
        using True Inr x by (simp add: onPreAcceptReply_def Let_def)
      then show ?thesis
        using onEitherPreAcceptReply_guarded[of ?u p b out] su by (simp add: PreAcceptReply)
    qed
  next
    case False
    with assms show ?thesis by (auto simp: PreAcceptReply onPreAcceptReply_def)
  qed
next
  case (Accept x)
  with assms show ?thesis by simp
next
  case AcceptOK
  with assms show ?thesis
    by (auto simp: onAcceptOK_def transitionToCommit_def assertState_def timerGuarded_def Let_def
        split: if_splits)
next
  case (Commit x)
  with assms show ?thesis by simp
qed

lemma step_guarded:
  assumes "timerGuarded a" "leaderEvent ev"
  shows "step p a ev \<noteq> Inl UnexpectedState \<and>
         (step p a ev = Inr (b, out) \<longrightarrow> timerGuarded b)"
proof (cases ev)
  case (Deliver m)
  with assms deliver_guarded[of a m p b out] show ?thesis by simp
next
  case Tick
  with assms show ?thesis
    by (auto simp: tick_def slowPathTimerCallback_def transitionToAccept_def assertState_def
        timerGuarded_def Let_def split: if_splits)
next
  case Execute
  with assms show ?thesis by (auto simp: execute_def timerGuarded_def split: if_splits)
qed

lemma run_guarded:
  assumes "timerGuarded a" "\<forall>ev \<in> set evs. leaderEvent ev"
  shows "run p a evs \<noteq> Inl UnexpectedState \<and>
         (run p a evs = Inr (b, out) \<longrightarrow> timerGuarded b)"
  using assms
proof (induction evs arbitrary: a b out)
  case Nil
  then show ?case by auto
next
  case (Cons ev evs)
  show ?case
  proof (cases "step p a ev")
    case (Inl e)
    with step_guarded[of a ev p] Cons.prems show ?thesis by auto
  next
    case (Inr x)
    obtain a1 o1 where x: "x = (a1, o1)" by (cases x)
    from step_guarded[of a ev p a1 o1] Cons.prems Inr x have g: "timerGuarded a1" by simp
    from Cons.prems have l: "\<forall>ev \<in> set evs. leaderEvent ev" by simp
    show ?thesis
    proof (cases "run p a1 evs")
      case (Inl e)
      with Cons.IH[OF g l] Inr x show ?thesis by auto
    next
      case r: (Inr y)
      obtain a2 o2 where y: "y = (a2, o2)" by (cases y)
      from Cons.IH[OF g l, of a2 o2] r y have "timerGuarded a2" by simp
      with Inr x r y show ?thesis by auto
    qed
  qed
qed

lemma tick_unarmed:
  "timerGuarded a \<Longrightarrow> state a \<noteq> preAccepted \<Longrightarrow> tick a = Inr (a, [])"
  by (simp add: timerGuarded_def tick_def Let_def split: if_splits)

lemma step_unarmed:
  assumes "\<not> armed (slowPathTimer a)" "followerEvent ev"
  shows "step p a ev \<noteq> Inl UnexpectedState \<and>
         (step p a ev = Inr (b, out) \<longrightarrow> \<not> armed (slowPathTimer b))"
proof (cases ev)
  case (Deliver m)
  show ?thesis
  proof (cases m)
    case (PreAccept pa)
    with assms Deliver show ?thesis
      by (auto simp: onPreAccept_def Let_def insertAll_Some
          split: if_splits option.splits prod.splits)
  next
    case PreAcceptOK
    with assms Deliver show ?thesis by simp
  next
    case (PreAcceptReply s ds)
    with assms Deliver show ?thesis by simp
  next
    case (Accept x)
    with assms Deliver updateInstanceState_no_assert[of "a\<lparr>state := accepted\<rparr>" "SeqNum x" "Deps x"]
    show ?thesis
      by (auto simp: onAccept_def split: if_splits sum.splits prod.splits
          dest!: updateInstanceState_frame)
  next
    case AcceptOK
    with assms Deliver show ?thesis by simp
  next
    case (Commit x)
    show ?thesis
    proof (cases "Command x")
      case None
      with assms Deliver Commit show ?thesis
        by (auto simp: onCommit_def Let_def split: if_splits)
    next
      case (Some c)
      with assms Deliver Commit
        updateInstanceState_no_assert[of "a\<lparr>state := committed, cmd := c\<rparr>" "SeqNum x" "Deps x"]
      show ?thesis
        by (auto simp: onCommit_def Let_def split: if_splits sum.splits prod.splits
            dest!: updateInstanceState_frame)
    qed
  qed
next
  case Tick
  with assms show ?thesis by (auto simp: tick_def Let_def)
next
  case Execute
  with assms show ?thesis by (auto simp: execute_def)
qed

lemma run_unarmed:
  assumes "\<not> armed (slowPathTimer a)" "\<forall>ev \<in> set evs. followerEvent ev"
  shows "run p a evs \<noteq> Inl UnexpectedState \<and>
         (run p a evs = Inr (b, out) \<longrightarrow> \<not> armed (slowPathTimer b))"
  using assms
proof (induction evs arbitrary: a b out)
  case Nil
  then show ?case by auto
next
  case (Cons ev evs)
  show ?case
  proof (cases "step p a ev")
    case (Inl e)
    with step_unarmed[of a ev p] Cons.prems show ?thesis by auto
  next
    case (Inr x)
    obtain a1 o1 where x: "x = (a1, o1)" by (cases x)
    from step_unarmed[of a ev p a1 o1] Cons.prems Inr x
    have g: "\<not> armed (slowPathTimer a1)" by simp
    from Cons.prems have l: "\<forall>ev \<in> set evs. followerEvent ev" by simp
    show ?thesis
    proof (cases "run p a1 evs")
      case (Inl e)
      with Cons.IH[OF g l] Inr x show ?thesis by auto
    next
      case r: (Inr y)
      obtain a2 o2 where y: "y = (a2, o2)" by (cases y)
      from Cons.IH[OF g l, of a2 o2] r y have "\<not> armed (slowPathTimer a2)" by simp
      with Inr x r y show ?thesis by auto
    qed
  qed
qed






lemma length_insertExecutable: "length (insertExecutable x ys) = Suc (length ys)"
  by (induction ys) auto

lemma length_executionOrder: "length (executionOrder xs) = length xs"
  by (induction xs) (auto simp: length_insertExecutable)






subsection \<open>Fast path and slow path\<close>

text \<open>
  Claim C1. On the command leader in state PreAccepted, \<open>onPreAcceptOK\<close> and
  \<open>onPreAcceptReply\<close> tally the reply (\<open>preAcceptReplies++\<close>; a PreAcceptReply first merges
  its seq and deps and sets \<open>differentReplies\<close> if that changed anything, that is if the seq
  or the number of deps differed) and call \<open>onEitherPreAcceptReply\<close>, which counts
  \<open>replies = preAcceptReplies + 1\<close> in Go's int arithmetic. If no reply so far carried new
  information and \<open>replies\<close> reaches the fast quorum, the slow-path timer is unregistered,
  the instance becomes Committed and Commit is broadcast (and the instance is handed to
  execution); this case comes first, so it wins when the slow quorum is reached as well.
  Otherwise, if \<open>replies\<close> reaches the slow quorum and some earlier reply or this one
  carried new information, the timer is unregistered, the instance becomes Accepted and
  Accept is broadcast, within the same call. Stated for \<open>onEitherPreAcceptReply\<close> on the
  tallied instance, and for both handlers on the instance before the tally.
\<close>

theorem preAccept_replies_paths:
  assumes "state inst = preAccepted"
  shows "(\<not> differentReplies inst \<and> fastQuorum p (preAcceptReplies inst + 1) \<longrightarrow>
            onEitherPreAcceptReply p inst =
              Inr (inst\<lparr>state := committed, slowPathTimer := unregisterTimer (slowPathTimer inst)\<rparr>,
                   [Broadcast (Commit (instanceState inst)), PrepareToExecute])) \<and>
         (\<not> (\<not> differentReplies inst \<and> fastQuorum p (preAcceptReplies inst + 1)) \<and>
          quorum p (preAcceptReplies inst + 1) \<and> differentReplies inst \<longrightarrow>
            onEitherPreAcceptReply p inst =
              Inr (inst\<lparr>state := accepted, slowPathTimer := unregisterTimer (slowPathTimer inst)\<rparr>,
                   [Broadcast (Accept (instanceStateWithoutCommand inst))])) \<and>
         \<not> isSet (unregisterTimer (slowPathTimer inst)) \<and>
         (\<not> differentReplies inst \<and> fastQuorum p (preAcceptReplies inst + 1 + 1) \<longrightarrow>
            onPreAcceptOK p inst =
              Inr (inst\<lparr>preAcceptReplies := preAcceptReplies inst + 1, state := committed,
                        slowPathTimer := unregisterTimer (slowPathTimer inst)\<rparr>,
                   [Broadcast (Commit (instanceState inst)), PrepareToExecute])) \<and>
         (differentReplies inst \<and> quorum p (preAcceptReplies inst + 1 + 1) \<longrightarrow>
            onPreAcceptOK p inst =
              Inr (inst\<lparr>preAcceptReplies := preAcceptReplies inst + 1, state := accepted,
                        slowPathTimer := unregisterTimer (slowPathTimer inst)\<rparr>,
                   [Broadcast (Accept (instanceStateWithoutCommand inst))])) \<and>
         (updateInstanceState inst newSeq newDeps = Inr (changed, upd) \<longrightarrow>
            (changed \<longleftrightarrow> (seq inst \<noteq> newSeq \<or> length newDeps \<noteq> lenDeps (deps inst))) \<and>
            (\<not> differentReplies inst \<and> \<not> changed \<and> fastQuorum p (preAcceptReplies inst + 1 + 1) \<longrightarrow>
               onPreAcceptReply p inst newSeq newDeps =
                 Inr (upd\<lparr>differentReplies := False,
                          preAcceptReplies := preAcceptReplies inst + 1, state := committed,
                          slowPathTimer := unregisterTimer (slowPathTimer inst)\<rparr>,
                      [Broadcast (Commit (instanceState upd)), PrepareToExecute])) \<and>
            ((differentReplies inst \<or> changed) \<and> quorum p (preAcceptReplies inst + 1 + 1) \<longrightarrow>
               onPreAcceptReply p inst newSeq newDeps =
                 Inr (upd\<lparr>differentReplies := True,
                          preAcceptReplies := preAcceptReplies inst + 1, state := accepted,
                          slowPathTimer := unregisterTimer (slowPathTimer inst)\<rparr>,
                      [Broadcast (Accept (instanceStateWithoutCommand upd))])))"
proof -
  let ?t = "inst\<lparr>preAcceptReplies := preAcceptReplies inst + 1\<rparr>"
  have ok: "onPreAcceptOK p inst = onEitherPreAcceptReply p ?t"
    using assms by (simp add: onPreAcceptOK_def)
  have okF: "\<not> differentReplies inst \<and> fastQuorum p (preAcceptReplies inst + 1 + 1) \<longrightarrow>
            onPreAcceptOK p inst =
              Inr (inst\<lparr>preAcceptReplies := preAcceptReplies inst + 1, state := committed,
                        slowPathTimer := unregisterTimer (slowPathTimer inst)\<rparr>,
                   [Broadcast (Commit (instanceState inst)), PrepareToExecute])"
    using assms onEitherPreAcceptReply_fast[of ?t p]
    by (simp add: ok instanceState_def instanceStateWithoutCommand_def depSlice_def)
  have okS: "differentReplies inst \<and> quorum p (preAcceptReplies inst + 1 + 1) \<longrightarrow>
            onPreAcceptOK p inst =
              Inr (inst\<lparr>preAcceptReplies := preAcceptReplies inst + 1, state := accepted,
                        slowPathTimer := unregisterTimer (slowPathTimer inst)\<rparr>,
                   [Broadcast (Accept (instanceStateWithoutCommand inst))])"
    using assms onEitherPreAcceptReply_slow[of ?t p]
    by (simp add: ok instanceStateWithoutCommand_def depSlice_def)
  have rep: "updateInstanceState inst newSeq newDeps = Inr (changed, upd) \<longrightarrow>
            (changed \<longleftrightarrow> (seq inst \<noteq> newSeq \<or> length newDeps \<noteq> lenDeps (deps inst))) \<and>
            (\<not> differentReplies inst \<and> \<not> changed \<and> fastQuorum p (preAcceptReplies inst + 1 + 1) \<longrightarrow>
               onPreAcceptReply p inst newSeq newDeps =
                 Inr (upd\<lparr>differentReplies := False,
                          preAcceptReplies := preAcceptReplies inst + 1, state := committed,
                          slowPathTimer := unregisterTimer (slowPathTimer inst)\<rparr>,
                      [Broadcast (Commit (instanceState upd)), PrepareToExecute])) \<and>
            ((differentReplies inst \<or> changed) \<and> quorum p (preAcceptReplies inst + 1 + 1) \<longrightarrow>
               onPreAcceptReply p inst newSeq newDeps =
                 Inr (upd\<lparr>differentReplies := True,
                          preAcceptReplies := preAcceptReplies inst + 1, state := accepted,
                          slowPathTimer := unregisterTimer (slowPathTimer inst)\<rparr>,
                      [Broadcast (Accept (instanceStateWithoutCommand upd))]))"
  proof
    assume u: "updateInstanceState inst newSeq newDeps = Inr (changed, upd)"
    note fr = updateInstanceState_frame[OF u]
    let ?u = "upd\<lparr>differentReplies := (differentReplies upd \<or> changed),
                   preAcceptReplies := preAcceptReplies upd + 1\<rparr>"
    have h: "onPreAcceptReply p inst newSeq newDeps = onEitherPreAcceptReply p ?u"
      using assms u by (simp add: onPreAcceptReply_def Let_def)
    have f: "\<not> differentReplies inst \<and> \<not> changed \<and> fastQuorum p (preAcceptReplies inst + 1 + 1) \<longrightarrow>
               onPreAcceptReply p inst newSeq newDeps =
                 Inr (upd\<lparr>differentReplies := False,
                          preAcceptReplies := preAcceptReplies inst + 1, state := committed,
                          slowPathTimer := unregisterTimer (slowPathTimer inst)\<rparr>,
                      [Broadcast (Commit (instanceState upd)), PrepareToExecute])"
      using assms fr onEitherPreAcceptReply_fast[of ?u p]
      by (simp add: h instanceState_def instanceStateWithoutCommand_def depSlice_def)
    have s: "(differentReplies inst \<or> changed) \<and> quorum p (preAcceptReplies inst + 1 + 1) \<longrightarrow>
               onPreAcceptReply p inst newSeq newDeps =
                 Inr (upd\<lparr>differentReplies := True,
                          preAcceptReplies := preAcceptReplies inst + 1, state := accepted,
                          slowPathTimer := unregisterTimer (slowPathTimer inst)\<rparr>,
                      [Broadcast (Accept (instanceStateWithoutCommand upd))])"
      using assms fr onEitherPreAcceptReply_slow[of ?u p]
      by (auto simp: h instanceStateWithoutCommand_def depSlice_def)
    show "(changed \<longleftrightarrow> (seq inst \<noteq> newSeq \<or> length newDeps \<noteq> lenDeps (deps inst))) \<and>
            (\<not> differentReplies inst \<and> \<not> changed \<and> fastQuorum p (preAcceptReplies inst + 1 + 1) \<longrightarrow>
               onPreAcceptReply p inst newSeq newDeps =
                 Inr (upd\<lparr>differentReplies := False,
                          preAcceptReplies := preAcceptReplies inst + 1, state := committed,
                          slowPathTimer := unregisterTimer (slowPathTimer inst)\<rparr>,
                      [Broadcast (Commit (instanceState upd)), PrepareToExecute])) \<and>
            ((differentReplies inst \<or> changed) \<and> quorum p (preAcceptReplies inst + 1 + 1) \<longrightarrow>
               onPreAcceptReply p inst newSeq newDeps =
                 Inr (upd\<lparr>differentReplies := True,
                          preAcceptReplies := preAcceptReplies inst + 1, state := accepted,
                          slowPathTimer := unregisterTimer (slowPathTimer inst)\<rparr>,
                      [Broadcast (Accept (instanceStateWithoutCommand upd))]))"
      using updateInstanceState_changed[OF u] f s by blast
  qed
  show ?thesis
    using assms onEitherPreAcceptReply_fast[of inst p] onEitherPreAcceptReply_slow[of inst p] okF okS rep
    by (simp add: isSet_def unregisterTimer_def)
qed


theorem preAccept_replies_paths_witness:
  "state (leaderInstance 3 False) = preAccepted \<and> \<not> differentReplies (leaderInstance 3 False) \<and>
   fastQuorum (thresholdEnv 3 4 (0, {||}) :: nat epaxos) (preAcceptReplies (leaderInstance 3 False) + 1) \<and>
   onEitherPreAcceptReply (thresholdEnv 3 4 (0, {||})) (leaderInstance 3 False) =
     Inr ((leaderInstance 3 False)\<lparr>state := committed,
             slowPathTimer := unregisterTimer (slowPathTimer (leaderInstance 3 False))\<rparr>,
          [Broadcast (Commit (instanceState (leaderInstance 3 False))), PrepareToExecute]) \<and>
   state (leaderInstance 2 True) = preAccepted \<and> differentReplies (leaderInstance 2 True) \<and>
   quorum (thresholdEnv 3 4 (0, {||}) :: nat epaxos) (preAcceptReplies (leaderInstance 2 True) + 1) \<and>
   onEitherPreAcceptReply (thresholdEnv 3 4 (0, {||})) (leaderInstance 2 True) =
     Inr ((leaderInstance 2 True)\<lparr>state := accepted,
             slowPathTimer := unregisterTimer (slowPathTimer (leaderInstance 2 True))\<rparr>,
          [Broadcast (Accept (instanceStateWithoutCommand (leaderInstance 2 True)))]) \<and>
   state (leaderInstance 2 False) = preAccepted \<and> \<not> differentReplies (leaderInstance 2 False) \<and>
   fastQuorum (thresholdEnv 3 4 (0, {||}) :: nat epaxos)
     (preAcceptReplies (leaderInstance 2 False) + 1 + 1) \<and>
   onPreAcceptOK (thresholdEnv 3 4 (0, {||})) (leaderInstance 2 False) =
     Inr ((leaderInstance 2 False)\<lparr>preAcceptReplies := preAcceptReplies (leaderInstance 2 False) + 1,
             state := committed,
             slowPathTimer := unregisterTimer (slowPathTimer (leaderInstance 2 False))\<rparr>,
          [Broadcast (Commit (instanceState (leaderInstance 2 False))), PrepareToExecute]) \<and>
   state (leaderInstance 1 False) = preAccepted \<and>
   quorum (thresholdEnv 3 4 (0, {||}) :: nat epaxos)
     (preAcceptReplies (leaderInstance 1 False) + 1 + 1) \<and>
   updateInstanceState (leaderInstance 1 False) 3 [(1, 1)]
     = Inr (True, (leaderInstance 1 False)\<lparr>seq := 3, deps := Some {|(1, 1)|}\<rparr>) \<and>
   onPreAcceptReply (thresholdEnv 3 4 (0, {||})) (leaderInstance 1 False) 3 [(1, 1)] =
     Inr ((leaderInstance 1 False)\<lparr>seq := 3, deps := Some {|(1, 1)|}\<rparr>
            \<lparr>differentReplies := True,
             preAcceptReplies := preAcceptReplies (leaderInstance 1 False) + 1,
             state := accepted,
             slowPathTimer := unregisterTimer (slowPathTimer (leaderInstance 1 False))\<rparr>,
          [Broadcast (Accept (instanceStateWithoutCommand
             ((leaderInstance 1 False)\<lparr>seq := 3, deps := Some {|(1, 1)|}\<rparr>)))])"
proof -
  let ?p = "thresholdEnv 3 4 (0, {||}) :: nat epaxos"
  have st: "state (leaderInstance 3 False) = preAccepted" "state (leaderInstance 2 True) = preAccepted"
    "state (leaderInstance 2 False) = preAccepted" "state (leaderInstance 1 False) = preAccepted"
    by (simp_all add: leaderInstance_def)
  have fl: "\<not> differentReplies (leaderInstance 3 False)" "differentReplies (leaderInstance 2 True)"
    "\<not> differentReplies (leaderInstance 2 False)"
    by (simp_all add: leaderInstance_def)
  have q: "fastQuorum ?p (preAcceptReplies (leaderInstance 3 False) + 1)"
    "quorum ?p (preAcceptReplies (leaderInstance 2 True) + 1)"
    "fastQuorum ?p (preAcceptReplies (leaderInstance 2 False) + 1 + 1)"
    "quorum ?p (preAcceptReplies (leaderInstance 1 False) + 1 + 1)"
    by (simp_all add: leaderInstance_def thresholdEnv_def)
  have u: "updateInstanceState (leaderInstance 1 False) 3 [(1, 1)]
     = Inr (True, (leaderInstance 1 False)\<lparr>seq := 3, deps := Some {|(1, 1)|}\<rparr>)"
    by (simp add: updateInstanceState_def lenDeps_def leaderInstance_def fcard_fempty Let_def)
  note T1 = preAccept_replies_paths[OF st(1), of ?p 1 "[]" False "leaderInstance 3 False"]
  note T2 = preAccept_replies_paths[OF st(2), of ?p 1 "[]" False "leaderInstance 2 True"]
  note T3 = preAccept_replies_paths[OF st(3), of ?p 1 "[]" False "leaderInstance 2 False"]
  note T4 = preAccept_replies_paths[OF st(4), of ?p 3 "[(1, 1)]" True
            "(leaderInstance 1 False)\<lparr>seq := 3, deps := Some {|(1, 1)|}\<rparr>"]
  have a: "onEitherPreAcceptReply ?p (leaderInstance 3 False) =
     Inr ((leaderInstance 3 False)\<lparr>state := committed,
             slowPathTimer := unregisterTimer (slowPathTimer (leaderInstance 3 False))\<rparr>,
          [Broadcast (Commit (instanceState (leaderInstance 3 False))), PrepareToExecute])"
    by (rule T1[THEN conjunct1, THEN mp]) (intro conjI fl(1) q(1))
  have b: "onEitherPreAcceptReply ?p (leaderInstance 2 True) =
     Inr ((leaderInstance 2 True)\<lparr>state := accepted,
             slowPathTimer := unregisterTimer (slowPathTimer (leaderInstance 2 True))\<rparr>,
          [Broadcast (Accept (instanceStateWithoutCommand (leaderInstance 2 True)))])"
    by (rule T2[THEN conjunct2, THEN conjunct1, THEN mp]) (use fl(2) q(2) in blast)
  have c: "onPreAcceptOK ?p (leaderInstance 2 False) =
     Inr ((leaderInstance 2 False)\<lparr>preAcceptReplies := preAcceptReplies (leaderInstance 2 False) + 1,
             state := committed,
             slowPathTimer := unregisterTimer (slowPathTimer (leaderInstance 2 False))\<rparr>,
          [Broadcast (Commit (instanceState (leaderInstance 2 False))), PrepareToExecute])"
    by (rule T3[THEN conjunct2, THEN conjunct2, THEN conjunct2, THEN conjunct1, THEN mp])
       (intro conjI fl(3) q(3))
  have d: "onPreAcceptReply ?p (leaderInstance 1 False) 3 [(1, 1)] =
     Inr ((leaderInstance 1 False)\<lparr>seq := 3, deps := Some {|(1, 1)|}\<rparr>
            \<lparr>differentReplies := True,
             preAcceptReplies := preAcceptReplies (leaderInstance 1 False) + 1,
             state := accepted,
             slowPathTimer := unregisterTimer (slowPathTimer (leaderInstance 1 False))\<rparr>,
          [Broadcast (Accept (instanceStateWithoutCommand
             ((leaderInstance 1 False)\<lparr>seq := 3, deps := Some {|(1, 1)|}\<rparr>)))])"
    by (rule T4[THEN conjunct2, THEN conjunct2, THEN conjunct2, THEN conjunct2, THEN conjunct2,
          THEN mp, OF u, THEN conjunct2, THEN conjunct2, THEN mp])
       (use q(4) in blast)
  show ?thesis
    by (intro conjI st fl q u a b c d)
qed

subsection \<open>Handling PreAccept\<close>

text \<open>
  Claim C2. \<open>onPreAccept\<close> acts only on an instance in state None: in any other state the
  message is ignored with a debug trace and the instance is returned as it was. When it
  acts on a message that carries a command, the instance is PreAccepted afterwards with
  that command, \<open>seq = max(msg.seq, maxLocalSeq + 1)\<close> and \<open>deps = localDeps \<union> msg.deps\<close>,
  where \<open>(maxLocalSeq, localDeps)\<close> is what \<open>seqAndDepsForCommand\<close> answers for the command.
\<close>

theorem onPreAccept_merge:
  "(state inst \<noteq> none \<longrightarrow> onPreAccept p inst pa = Inr (inst, [Debugf])) \<and>
   (state inst = none \<and> Command pa = Some c \<and>
    seqAndDepsForCommand p c = (maxLocalSeq, localDeps) \<longrightarrow>
      (\<exists>inst' out. onPreAccept p inst pa = Inr (inst', out) \<and> state inst' = preAccepted \<and>
          cmd inst' = c \<and> seq inst' = max (SeqNum pa) (maxLocalSeq + 1) \<and>
          deps inst' = Some (localDeps |\<union>| fset_of_list (Deps pa))))"
  by (auto simp: onPreAccept_acts onPreAccept_ignored)

theorem onPreAccept_merge_witness:
  "state ((newInstance 0 0 1)\<lparr>state := accepted\<rparr> :: nat Instance) \<noteq> none \<and>
   onPreAccept (thresholdEnv 2 3 (4, {|(2, 1)|})) ((newInstance 0 0 1)\<lparr>state := accepted\<rparr>)
      \<lparr>Command = Some 7, SeqNum = 1, Deps = [(1, 1)]\<rparr>
     = Inr ((newInstance 0 0 1)\<lparr>state := accepted\<rparr>, [Debugf]) \<and>
   state (newInstance 0 0 1 :: nat Instance) = none \<and>
   (\<exists>inst' out. onPreAccept (thresholdEnv 2 3 (4, {|(2, 1)|})) (newInstance (0::nat) 0 1)
        \<lparr>Command = Some 7, SeqNum = 1, Deps = [(1, 1)]\<rparr> = Inr (inst', out) \<and>
      state inst' = preAccepted \<and> cmd inst' = 7 \<and> seq inst' = 5 \<and>
      deps inst' = Some {|(1, 1), (2, 1)|})"
  using onPreAccept_merge[of "(newInstance 0 0 1)\<lparr>state := accepted\<rparr>"
            "thresholdEnv 2 3 (4, {|(2, 1)|})"
            "\<lparr>Command = Some 7, SeqNum = 1, Deps = [(1, 1)]\<rparr>" 7 4 "{|(2, 1)|}"]
        onPreAccept_merge[of "newInstance 0 0 1" "thresholdEnv 2 3 (4, {|(2, 1)|})"
            "\<lparr>Command = Some 7, SeqNum = 1, Deps = [(1, 1)]\<rparr>" 7 4 "{|(2, 1)|}"]
  by (simp add: newInstance_def thresholdEnv_def)



subsection \<open>State progress\<close>

text \<open>
  Claim C3. Along every sequence of events of an instance (a delivered PreAccept,
  PreAcceptOK, PreAcceptReply, Accept, AcceptOK or Commit, a tick of the timer registry,
  an execution) the state never decreases in the order
  None < PreAccepted < Accepted < Committed < Executed, and every event that changes the
  state takes one of the transitions None to PreAccepted, PreAccepted to Accepted, None to
  Accepted by an Accept, PreAccepted or Accepted to Committed, None to Committed by a
  Commit, Committed to Executed. Stated for an arbitrary event \<open>ev\<close> inside a run that
  returns: the instance \<open>a\<close> before it and \<open>b\<close> after it.
\<close>

theorem run_state_progress:
  assumes "run p inst (evs1 @ ev # evs2) = Inr (final, out)"
  shows "\<exists>a outa b outb. run p inst evs1 = Inr (a, outa) \<and> step p a ev = Inr (b, outb) \<and>
           (state b = state a \<or> legalTransition ev (state a) (state b)) \<and>
           stateNum (state inst) \<le> stateNum (state a) \<and>
           stateNum (state a) \<le> stateNum (state b) \<and>
           stateNum (state b) \<le> stateNum (state final)"
proof -
  from assms obtain a outa where a: "run p inst evs1 = Inr (a, outa)"
    by (auto simp: run_append split: sum.splits prod.splits)
  with assms obtain b outb where b: "step p a ev = Inr (b, outb)"
    by (auto simp: run_append split: sum.splits prod.splits)
  with a assms obtain outc where c: "run p b evs2 = Inr (final, outc)"
    by (auto simp: run_append split: sum.splits prod.splits)
  show ?thesis
    using a b c step_legal[OF b] step_mono[OF b] run_mono[OF a] run_mono[OF c] by blast
qed

theorem run_state_progress_witness:
  "run (thresholdEnv 2 3 (0, {||})) (newInstance (0::nat) 0 1)
      ([Deliver (PreAccept \<lparr>Command = Some 7, SeqNum = 1, Deps = []\<rparr>)] @
       Deliver (Accept \<lparr>Command = None, SeqNum = 1, Deps = []\<rparr>) #
       [Deliver (Commit \<lparr>Command = Some 7, SeqNum = 1, Deps = []\<rparr>), Execute])
     = Inr ((newInstance 0 0 1)\<lparr>cmd := 7, seq := 1, deps := Some {||}, state := executed\<rparr>,
            [Reply PreAcceptOK, Reply AcceptOK, PrepareToExecute]) \<and>
   (\<exists>a outa b outb.
      run (thresholdEnv 2 3 (0, {||})) (newInstance (0::nat) 0 1)
        [Deliver (PreAccept \<lparr>Command = Some 7, SeqNum = 1, Deps = []\<rparr>)] = Inr (a, outa) \<and>
      step (thresholdEnv 2 3 (0, {||})) a
        (Deliver (Accept \<lparr>Command = None, SeqNum = 1, Deps = []\<rparr>)) = Inr (b, outb) \<and>
      (state b = state a \<or>
       legalTransition (Deliver (Accept \<lparr>Command = None, SeqNum = 1, Deps = []\<rparr>) :: nat event)
         (state a) (state b)) \<and>
      stateNum (state (newInstance (0::nat) 0 1)) \<le> stateNum (state a) \<and>
      stateNum (state a) \<le> stateNum (state b) \<and>
      stateNum (state b) \<le> stateNum executed)"
proof -
  have run: "run (thresholdEnv 2 3 (0, {||})) (newInstance (0::nat) 0 1)
      ([Deliver (PreAccept \<lparr>Command = Some 7, SeqNum = 1, Deps = []\<rparr>)] @
       Deliver (Accept \<lparr>Command = None, SeqNum = 1, Deps = []\<rparr>) #
       [Deliver (Commit \<lparr>Command = Some 7, SeqNum = 1, Deps = []\<rparr>), Execute])
     = Inr ((newInstance 0 0 1)\<lparr>cmd := 7, seq := 1, deps := Some {||}, state := executed\<rparr>,
            [Reply PreAcceptOK, Reply AcceptOK, PrepareToExecute])"
    by (simp add: thresholdEnv_def newInstance_def onPreAccept_def onAccept_def onCommit_def
        updateInstanceState_def lenDeps_def MaxSeqNum_def execute_def Let_def)
  show ?thesis
    using run run_state_progress[OF run] by simp
qed

text \<open>
  Claim C4. Once an instance is Committed (or, later, Executed), every delivered message,
  whether PreAccept, PreAcceptOK, PreAcceptReply, Accept, AcceptOK or another Commit, is
  ignored and returns the instance as it was; so after any run of events the instance has
  the seq, deps and command it had, and a run of deliveries and executions always returns.
\<close>

theorem frozen_after_commit:
  assumes "state inst = committed \<or> state inst = executed"
  shows "deliver p inst m = Inr (inst, [Debugf]) \<and>
         (run p inst evs = Inr (inst', out) \<longrightarrow>
            seq inst' = seq inst \<and> deps inst' = deps inst \<and> cmd inst' = cmd inst) \<and>
         (Tick \<notin> set evs \<longrightarrow> (\<exists>inst'' out''. run p inst evs = Inr (inst'', out'')))"
  using deliver_frozen[OF assms] run_frozen[OF assms] run_total_frozen[OF assms] by blast

theorem frozen_after_commit_witness:
  "(state ((leaderInstance 2 False)\<lparr>state := committed\<rparr>) = committed \<or>
    state ((leaderInstance 2 False)\<lparr>state := committed\<rparr>) = executed) \<and>
   deliver (thresholdEnv 3 4 (0, {|(2, 1)|})) ((leaderInstance 2 False)\<lparr>state := committed\<rparr>)
     (Commit \<lparr>Command = Some 9, SeqNum = 4, Deps = [(2, 1)]\<rparr>)
     = Inr ((leaderInstance 2 False)\<lparr>state := committed\<rparr>, [Debugf]) \<and>
   run (thresholdEnv 3 4 (0, {|(2, 1)|})) ((leaderInstance 2 False)\<lparr>state := committed\<rparr>)
     [Deliver (PreAccept \<lparr>Command = Some 9, SeqNum = 4, Deps = [(2, 1)]\<rparr>), Execute,
      Deliver (PreAcceptReply 4 [(2, 1)]),
      Deliver (Accept \<lparr>Command = None, SeqNum = 4, Deps = [(2, 1)]\<rparr>)]
     = Inr ((leaderInstance 2 False)\<lparr>state := executed\<rparr>, [Debugf, Debugf, Debugf]) \<and>
   seq ((leaderInstance 2 False)\<lparr>state := executed\<rparr>)
     = seq ((leaderInstance 2 False)\<lparr>state := committed\<rparr>) \<and>
   deps ((leaderInstance 2 False)\<lparr>state := executed\<rparr>)
     = deps ((leaderInstance 2 False)\<lparr>state := committed\<rparr>) \<and>
   cmd ((leaderInstance 2 False)\<lparr>state := executed\<rparr>)
     = cmd ((leaderInstance 2 False)\<lparr>state := committed\<rparr>)"
proof -
  have run: "run (thresholdEnv 3 4 (0, {|(2, 1)|})) ((leaderInstance 2 False)\<lparr>state := committed\<rparr>)
     [Deliver (PreAccept \<lparr>Command = Some 9, SeqNum = 4, Deps = [(2, 1)]\<rparr>), Execute,
      Deliver (PreAcceptReply 4 [(2, 1)]),
      Deliver (Accept \<lparr>Command = None, SeqNum = 4, Deps = [(2, 1)]\<rparr>)]
     = Inr ((leaderInstance 2 False)\<lparr>state := executed\<rparr>, [Debugf, Debugf, Debugf])"
    by (simp add: leaderInstance_def onPreAccept_def onPreAcceptReply_def onAccept_def execute_def)
  have st: "state ((leaderInstance 2 False)\<lparr>state := committed\<rparr>) = committed \<or>
    state ((leaderInstance 2 False)\<lparr>state := committed\<rparr>) = executed" by simp
  show ?thesis
    using st run frozen_after_commit[OF st, of "thresholdEnv 3 4 (0, {|(2, 1)|})"
        "Commit \<lparr>Command = Some 9, SeqNum = 4, Deps = [(2, 1)]\<rparr>"
        "[Deliver (PreAccept \<lparr>Command = Some 9, SeqNum = 4, Deps = [(2, 1)]\<rparr>), Execute,
          Deliver (PreAcceptReply 4 [(2, 1)]),
          Deliver (Accept \<lparr>Command = None, SeqNum = 4, Deps = [(2, 1)]\<rparr>)]"
        "(leaderInstance 2 False)\<lparr>state := executed\<rparr>" "[Debugf, Debugf, Debugf]"]
    by simp
qed

subsection \<open>Execution order\<close>




subsection \<open>Updating seq and deps\<close>

text \<open>
  Claim C9, as amended. \<open>updateInstanceState(newSeq, newDeps)\<close> on an instance whose deps
  map exists: the resulting seq is \<open>newSeq\<close> whenever \<open>newSeq\<close> differs from the current
  seq, also when it is smaller, and is unchanged otherwise; the deps are left as they are
  whenever the length of \<open>newDeps\<close> equals the size of the map, whatever the members, and
  otherwise become \<open>deps \<union> newDeps\<close>; the result is true iff the seq differed or the
  lengths differed. On the nil map with an empty \<open>newDeps\<close> the lengths are equal, and the
  same holds.
\<close>

theorem updateInstanceState_result:
  "(deps inst = Some d \<longrightarrow>
      (\<exists>changed inst'. updateInstanceState inst newSeq newDeps = Inr (changed, inst') \<and>
         (newSeq \<noteq> seq inst \<longrightarrow> seq inst' = newSeq) \<and>
         (newSeq = seq inst \<longrightarrow> seq inst' = seq inst) \<and>
         (length newDeps = fcard d \<longrightarrow> deps inst' = Some d) \<and>
         (length newDeps \<noteq> fcard d \<longrightarrow> deps inst' = Some (d |\<union>| fset_of_list newDeps)) \<and>
         (changed \<longleftrightarrow> (newSeq \<noteq> seq inst \<or> length newDeps \<noteq> fcard d)))) \<and>
   (deps inst = None \<and> newDeps = [] \<longrightarrow>
      updateInstanceState inst newSeq newDeps = Inr (newSeq \<noteq> seq inst, inst\<lparr>seq := newSeq\<rparr>))"
  using updateInstanceState_Some[of inst d newSeq newDeps]
        updateInstanceState_None[of inst newSeq newDeps]
  by auto

theorem updateInstanceState_result_witness:
  "deps ((leaderInstance 0 False)\<lparr>seq := 5, deps := Some {|(1, 1)|}\<rparr>) = Some {|(1, 1)|} \<and>
   (\<exists>changed inst'.
      updateInstanceState ((leaderInstance 0 False)\<lparr>seq := 5, deps := Some {|(1, 1)|}\<rparr>) 3 [(2, 2)]
        = Inr (changed, inst') \<and>
      changed \<and> seq inst' = 3 \<and>
      seq inst' < seq ((leaderInstance 0 False)\<lparr>seq := 5, deps := Some {|(1, 1)|}\<rparr>) \<and>
      deps inst' = Some {|(1, 1)|} \<and> (2, 2) |\<notin>| {|(1::nat, 1::nat)|}) \<and>
   (\<exists>changed inst'.
      updateInstanceState ((leaderInstance 0 False)\<lparr>seq := 5, deps := Some {|(1, 1)|}\<rparr>) 5
          [(2, 2), (3, 1)]
        = Inr (changed, inst') \<and>
      changed \<and> seq inst' = 5 \<and> deps inst' = Some {|(1, 1), (2, 2), (3, 1)|}) \<and>
   deps (newInstance (0::nat) 0 1) = None \<and>
   updateInstanceState (newInstance (0::nat) 0 1) 4 []
     = Inr (True, (newInstance 0 0 1)\<lparr>seq := 4\<rparr>)"
  using updateInstanceState_result[of "(leaderInstance 0 False)\<lparr>seq := 5, deps := Some {|(1, 1)|}\<rparr>"
          "{|(1, 1)|}" 3 "[(2, 2)]"]
        updateInstanceState_result[of "(leaderInstance 0 False)\<lparr>seq := 5, deps := Some {|(1, 1)|}\<rparr>"
          "{|(1, 1)|}" 5 "[(2, 2), (3, 1)]"]
        updateInstanceState_result[of "newInstance (0::nat) 0 1" "{||}" 4 "[]"]
  by (auto simp: leaderInstance_def newInstance_def fcard_finsert_if fcard_fempty)

text \<open>
  Claim C9 as stated fails on the nil map that \<open>newInstance\<close> leaves, when \<open>newDeps\<close> is not
  empty: the lengths differ, the insertion panics and nothing is returned. \<open>onAccept\<close> in
  state None makes this call.
\<close>

theorem updateInstanceState_nil_map_panics:
  "state (newInstance (0::nat) 0 1) = none \<and> deps (newInstance (0::nat) 0 1) = None \<and>
   updateInstanceState ((newInstance (0::nat) 0 1)\<lparr>state := accepted\<rparr>) 4 [(1, 1)]
     = Inl NilMapAssignment \<and>
   onAccept (thresholdEnv 2 2 (0, {||})) (newInstance (0::nat) 0 1)
     \<lparr>Command = None, SeqNum = 4, Deps = [(1, 1)]\<rparr> = Inl NilMapAssignment"
  by (simp add: onAccept_def newInstance_def updateInstanceState_def lenDeps_def Let_def)

text \<open>
  Claim C10. \<open>newInstance\<close> leaves the deps map nil. An Accept or a Commit with a
  non-empty deps list, delivered to such an instance while it is still in state None (a
  state in which both handlers act), reaches the insertion of \<open>updateInstanceState\<close> with
  the nil map, and the handler panics instead of returning.
\<close>

theorem nil_deps_insertion_panics:
  "state (newInstance c0 rid num) = none \<and> deps (newInstance c0 rid num) = None \<and>
   onAccept p (newInstance c0 rid num) \<lparr>Command = x, SeqNum = s, Deps = dep # ds\<rparr>
     = Inl NilMapAssignment \<and>
   onCommit p (newInstance c0 rid num) \<lparr>Command = Some c, SeqNum = s, Deps = dep # ds\<rparr>
     = Inl NilMapAssignment"
  by (simp add: onAccept_def onCommit_def newInstance_def updateInstanceState_def lenDeps_def Let_def)

subsection \<open>The slow-path timer\<close>

text \<open>
  Claim C6, as amended. The timeout of the slow-path timer is 2 ticks. When, on a
  PreAccepted leader whose replies carried no new information, the number of replies
  (with the leader) has reached the slow quorum but not the fast quorum, the leader arms
  the timer if it is not armed, and leaves it as it is, count included, if it is armed.
  While only ticks follow, the instance makes no transition and emits nothing for
  timeout - 1 ticks after arming, and on the tick that completes the timeout the timer
  fires once: the instance becomes Accepted and broadcasts Accept.
\<close>

theorem slow_path_timer_fires_after_timeout:
  assumes "state inst = preAccepted" "\<not> differentReplies inst"
    "quorum p (preAcceptReplies inst + 1)" "\<not> fastQuorum p (preAcceptReplies inst + 1)"
    "timeout (slowPathTimer inst) = slowPathTimout"
  shows "slowPathTimout = 2 \<and>
    (isSet (slowPathTimer inst) \<longrightarrow> onEitherPreAcceptReply p inst = Inr (inst, [])) \<and>
    (\<not> isSet (slowPathTimer inst) \<longrightarrow>
       (\<exists>started waited fired.
          onEitherPreAcceptReply p inst = Inr (started, []) \<and>
          state started = preAccepted \<and> isSet (slowPathTimer started) \<and>
          ticksLeft (slowPathTimer started) = slowPathTimout \<and>
          run p started (replicate (slowPathTimout - 1) Tick) = Inr (waited, []) \<and>
          state waited = preAccepted \<and> isSet (slowPathTimer waited) \<and>
          run p started (replicate slowPathTimout Tick)
            = Inr (fired, [Broadcast (Accept (instanceStateWithoutCommand inst))]) \<and>
          state fired = accepted \<and> \<not> isSet (slowPathTimer fired)))"
proof -
  let ?s = "inst\<lparr>slowPathTimer := registerOneTimeTimer (slowPathTimer inst)\<rparr>"
  let ?w = "?s\<lparr>slowPathTimer := (slowPathTimer ?s)\<lparr>ticksLeft := 1\<rparr>\<rparr>"
  let ?f = "?w\<lparr>slowPathTimer := (slowPathTimer ?w)\<lparr>ticksLeft := 0, armed := False\<rparr>,
              state := accepted\<rparr>"
  have arm: "armed (slowPathTimer ?s)" "ticksLeft (slowPathTimer ?s) = 2"
    using assms(5) by (simp_all add: registerOneTimeTimer_def slowPathTimout_def)
  have t1: "tick ?s = Inr (?w, [])"
    using tick_wait[OF arm] .
  have t2: "tick ?w = Inr (?f, [Broadcast (Accept (instanceStateWithoutCommand ?w))])"
    using assms(1) by (intro tick_fire) (simp_all add: registerOneTimeTimer_def)
  have same: "instanceStateWithoutCommand ?w = instanceStateWithoutCommand inst"
    by (simp add: instanceStateWithoutCommand_def depSlice_def)
  have r1: "run p ?s (replicate (slowPathTimout - 1) Tick) = Inr (?w, [])"
    using t1 by (simp add: slowPathTimout_def)
  have r2: "run p ?s (replicate slowPathTimout Tick)
              = Inr (?f, [Broadcast (Accept (instanceStateWithoutCommand inst))])"
    using t1 t2 same by (simp add: slowPathTimout_def numeral_2_eq_2)
  have "\<not> isSet (slowPathTimer inst) \<longrightarrow>
       (onEitherPreAcceptReply p inst = Inr (?s, []) \<and>
          state ?s = preAccepted \<and> isSet (slowPathTimer ?s) \<and>
          ticksLeft (slowPathTimer ?s) = slowPathTimout \<and>
          run p ?s (replicate (slowPathTimout - 1) Tick) = Inr (?w, []) \<and>
          state ?w = preAccepted \<and> isSet (slowPathTimer ?w) \<and>
          run p ?s (replicate slowPathTimout Tick)
            = Inr (?f, [Broadcast (Accept (instanceStateWithoutCommand inst))]) \<and>
          state ?f = accepted \<and> \<not> isSet (slowPathTimer ?f))"
    using onEitherPreAcceptReply_waits[OF assms(1-4)] r1 r2 assms(1,5)
    by (simp add: isSet_def registerOneTimeTimer_def)
  then have "\<not> isSet (slowPathTimer inst) \<longrightarrow>
       (\<exists>started waited fired.
          onEitherPreAcceptReply p inst = Inr (started, []) \<and>
          state started = preAccepted \<and> isSet (slowPathTimer started) \<and>
          ticksLeft (slowPathTimer started) = slowPathTimout \<and>
          run p started (replicate (slowPathTimout - 1) Tick) = Inr (waited, []) \<and>
          state waited = preAccepted \<and> isSet (slowPathTimer waited) \<and>
          run p started (replicate slowPathTimout Tick)
            = Inr (fired, [Broadcast (Accept (instanceStateWithoutCommand inst))]) \<and>
          state fired = accepted \<and> \<not> isSet (slowPathTimer fired))"
    by blast
  moreover have "isSet (slowPathTimer inst) \<longrightarrow> onEitherPreAcceptReply p inst = Inr (inst, [])"
    using onEitherPreAcceptReply_waits[OF assms(1-4)] by simp
  ultimately show ?thesis by (simp add: slowPathTimout_def)
qed

theorem slow_path_timer_fires_after_timeout_witness:
  "state (leaderInstance 2 False) = preAccepted \<and> \<not> differentReplies (leaderInstance 2 False) \<and>
   quorum (thresholdEnv 3 4 (0, {||}) :: nat epaxos) (preAcceptReplies (leaderInstance 2 False) + 1) \<and>
   \<not> fastQuorum (thresholdEnv 3 4 (0, {||}) :: nat epaxos)
       (preAcceptReplies (leaderInstance 2 False) + 1) \<and>
   timeout (slowPathTimer (leaderInstance 2 False)) = slowPathTimout \<and>
   \<not> isSet (slowPathTimer (leaderInstance 2 False)) \<and>
   (\<exists>started waited fired.
      onEitherPreAcceptReply (thresholdEnv 3 4 (0, {||})) (leaderInstance 2 False)
        = Inr (started, []) \<and>
      state started = preAccepted \<and> isSet (slowPathTimer started) \<and>
      ticksLeft (slowPathTimer started) = slowPathTimout \<and>
      run (thresholdEnv 3 4 (0, {||})) started (replicate (slowPathTimout - 1) Tick)
        = Inr (waited, []) \<and>
      state waited = preAccepted \<and> isSet (slowPathTimer waited) \<and>
      run (thresholdEnv 3 4 (0, {||})) started (replicate slowPathTimout Tick)
        = Inr (fired, [Broadcast (Accept (instanceStateWithoutCommand (leaderInstance 2 False)))]) \<and>
      state fired = accepted \<and> \<not> isSet (slowPathTimer fired)) \<and>
   isSet (slowPathTimer ((leaderInstance 2 False)
            \<lparr>slowPathTimer := \<lparr>timeout = 2, ticksLeft = 1, armed = True\<rparr>\<rparr>)) \<and>
   onEitherPreAcceptReply (thresholdEnv 3 4 (0, {||}))
       ((leaderInstance 2 False)\<lparr>slowPathTimer := \<lparr>timeout = 2, ticksLeft = 1, armed = True\<rparr>\<rparr>)
     = Inr ((leaderInstance 2 False)
              \<lparr>slowPathTimer := \<lparr>timeout = 2, ticksLeft = 1, armed = True\<rparr>\<rparr>, [])"
proof -
  let ?p = "thresholdEnv 3 4 (0, {||}) :: nat epaxos"
  let ?a = "(leaderInstance 2 False)\<lparr>slowPathTimer := \<lparr>timeout = 2, ticksLeft = 1, armed = True\<rparr>\<rparr>"
  have h: "state (leaderInstance 2 False) = preAccepted"
    "\<not> differentReplies (leaderInstance 2 False)"
    "quorum ?p (preAcceptReplies (leaderInstance 2 False) + 1)"
    "\<not> fastQuorum ?p (preAcceptReplies (leaderInstance 2 False) + 1)"
    "timeout (slowPathTimer (leaderInstance 2 False)) = slowPathTimout"
    by (simp_all add: leaderInstance_def thresholdEnv_def newInstance_def makeTickingTimer_def)
  have n: "\<not> isSet (slowPathTimer (leaderInstance 2 False))"
    by (simp add: leaderInstance_def newInstance_def makeTickingTimer_def isSet_def)
  have k: "state ?a = preAccepted" "\<not> differentReplies ?a"
    "quorum ?p (preAcceptReplies ?a + 1)" "\<not> fastQuorum ?p (preAcceptReplies ?a + 1)"
    "timeout (slowPathTimer ?a) = slowPathTimout"
    by (simp_all add: leaderInstance_def thresholdEnv_def slowPathTimout_def)
  have m: "isSet (slowPathTimer ?a)"
    by (simp add: isSet_def)
  show ?thesis
    using h n m slow_path_timer_fires_after_timeout[OF h] slow_path_timer_fires_after_timeout[OF k]
    by blast
qed

text \<open>
  Claim C6 as stated fails in two ways. With slow and fast quorum both 2 (three replicas
  under the formulas of spec 4.1), one reply without new information makes 2 replies with
  the leader: the slow quorum is reached, and the leader commits on the fast path, the
  timer never armed. With slow quorum 3 and fast quorum 4, the second PreAcceptOK arms the
  timer, and a third PreAcceptOK handled before any tick commits the instance: a
  transition within the timeout, and no Accept.
\<close>

theorem fast_quorum_preempts_slow_path_timer:
  "quorum (thresholdEnv 2 2 (0, {||}) :: nat epaxos) (preAcceptReplies (leaderInstance 1 False) + 1) \<and>
   \<not> differentReplies (leaderInstance 1 False) \<and>
   \<not> isSet (slowPathTimer (leaderInstance 1 False)) \<and>
   onEitherPreAcceptReply (thresholdEnv 2 2 (0, {||})) (leaderInstance 1 False)
     = Inr ((leaderInstance 1 False)\<lparr>state := committed\<rparr>,
            [Broadcast (Commit \<lparr>Command = Some 7, SeqNum = 1, Deps = []\<rparr>), PrepareToExecute]) \<and>
   \<not> isSet (slowPathTimer ((leaderInstance 1 False)\<lparr>state := committed\<rparr>)) \<and>
   run (thresholdEnv 3 4 (0, {||})) (leaderInstance 1 False) [Deliver PreAcceptOK]
     = Inr ((leaderInstance 2 False)
              \<lparr>slowPathTimer := \<lparr>timeout = 2, ticksLeft = 2, armed = True\<rparr>\<rparr>, []) \<and>
   run (thresholdEnv 3 4 (0, {||})) (leaderInstance 1 False) [Deliver PreAcceptOK, Deliver PreAcceptOK]
     = Inr ((leaderInstance 3 False)
              \<lparr>state := committed,
               slowPathTimer := \<lparr>timeout = 2, ticksLeft = 2, armed = False\<rparr>\<rparr>,
            [Broadcast (Commit \<lparr>Command = Some 7, SeqNum = 1, Deps = []\<rparr>), PrepareToExecute])"
  by (simp add: onPreAcceptOK_def onEitherPreAcceptReply_def transitionToCommit_def
      assertState_def broadcastCommit_def instanceState_def instanceStateWithoutCommand_def
      depSlice_def fastPathAvailable_def leaderInstance_def thresholdEnv_def newInstance_def
      makeTickingTimer_def registerOneTimeTimer_def unregisterTimer_def isSet_def
      slowPathTimout_def Let_def)

text \<open>
  Claim C7. The slow-path timer never fires on an instance that is not PreAccepted, so the
  \<open>assertState\<close> of \<open>transitionToAccept\<close> in its callback never panics, and a tick that
  reaches an instance in any other state changes nothing and broadcasts nothing. Along
  every run of the events of the leader's own instance (replies, ticks, execution), from
  an instance whose timer is armed only if it is PreAccepted, the timer stays guarded:
  every way out of PreAccepted unregisters it first. Along every run of the events of an
  instance on another replica (PreAccept, Accept, Commit, ticks, execution) the timer is
  never armed.
\<close>

theorem slow_path_timer_fires_only_in_preAccepted:
  assumes "(timerGuarded inst \<and> (\<forall>ev \<in> set evs. leaderEvent ev)) \<or>
           (\<not> isSet (slowPathTimer inst) \<and> (\<forall>ev \<in> set evs. followerEvent ev))"
  shows "run p inst evs \<noteq> Inl UnexpectedState \<and>
         (run p inst evs = Inr (inst', out) \<longrightarrow>
            timerGuarded inst' \<and>
            (state inst' \<noteq> preAccepted \<longrightarrow>
               \<not> isSet (slowPathTimer inst') \<and> tick inst' = Inr (inst', [])))"
  using assms
proof
  assume h: "timerGuarded inst \<and> (\<forall>ev \<in> set evs. leaderEvent ev)"
  then show ?thesis
    using run_guarded[of inst evs p inst' out] tick_unarmed[of inst']
    by (auto simp: isSet_def timerGuarded_def split: if_splits)
next
  assume h: "\<not> isSet (slowPathTimer inst) \<and> (\<forall>ev \<in> set evs. followerEvent ev)"
  then show ?thesis
    using run_unarmed[of inst evs p inst' out]
    by (auto simp: isSet_def timerGuarded_def tick_def Let_def)
qed

theorem slow_path_timer_fires_only_in_preAccepted_witness:
  "timerGuarded (leaderInstance 1 False) \<and>
   leaderEvent (Deliver PreAcceptOK :: nat event) \<and> leaderEvent (Tick :: nat event) \<and>
   run (thresholdEnv 3 4 (0, {||})) (leaderInstance 1 False)
     [Deliver PreAcceptOK, Tick, Deliver PreAcceptOK, Tick, Tick]
     = Inr ((leaderInstance 3 False)\<lparr>state := committed,
              slowPathTimer := \<lparr>timeout = 2, ticksLeft = 1, armed = False\<rparr>\<rparr>,
            [Broadcast (Commit \<lparr>Command = Some 7, SeqNum = 1, Deps = []\<rparr>), PrepareToExecute]) \<and>
   run (thresholdEnv 3 4 (0, {||})) (leaderInstance 1 False)
     [Deliver PreAcceptOK, Tick, Deliver PreAcceptOK, Tick, Tick] \<noteq> Inl UnexpectedState \<and>
   state ((leaderInstance 3 False)\<lparr>state := committed,
              slowPathTimer := \<lparr>timeout = 2, ticksLeft = 1, armed = False\<rparr>\<rparr>) \<noteq> preAccepted \<and>
   \<not> isSet (slowPathTimer ((leaderInstance 3 False)\<lparr>state := committed,
              slowPathTimer := \<lparr>timeout = 2, ticksLeft = 1, armed = False\<rparr>\<rparr>)) \<and>
   tick ((leaderInstance 3 False)\<lparr>state := committed,
              slowPathTimer := \<lparr>timeout = 2, ticksLeft = 1, armed = False\<rparr>\<rparr>)
     = Inr ((leaderInstance 3 False)\<lparr>state := committed,
              slowPathTimer := \<lparr>timeout = 2, ticksLeft = 1, armed = False\<rparr>\<rparr>, []) \<and>
   \<not> isSet (slowPathTimer (newInstance (0::nat) 0 1)) \<and>
   followerEvent (Deliver (PreAccept \<lparr>Command = Some (7::nat), SeqNum = 1, Deps = []\<rparr>)) \<and>
   followerEvent (Deliver (Commit \<lparr>Command = Some (7::nat), SeqNum = 1, Deps = []\<rparr>)) \<and>
   run (thresholdEnv 3 4 (0, {||})) (newInstance (0::nat) 0 1)
     [Deliver (PreAccept \<lparr>Command = Some 7, SeqNum = 1, Deps = []\<rparr>), Tick,
      Deliver (Commit \<lparr>Command = Some 7, SeqNum = 1, Deps = []\<rparr>), Tick]
     = Inr ((newInstance 0 0 1)\<lparr>cmd := 7, seq := 1, deps := Some {||}, state := committed\<rparr>,
            [Reply PreAcceptOK, PrepareToExecute]) \<and>
   tick ((newInstance (0::nat) 0 1)\<lparr>cmd := 7, seq := 1, deps := Some {||}, state := committed\<rparr>)
     = Inr ((newInstance 0 0 1)\<lparr>cmd := 7, seq := 1, deps := Some {||}, state := committed\<rparr>, [])"
proof -
  let ?p = "thresholdEnv 3 4 (0, {||}) :: nat epaxos"
  let ?evs = "[Deliver PreAcceptOK, Tick, Deliver PreAcceptOK, Tick, Tick :: nat event]"
  let ?f = "(leaderInstance 3 False)\<lparr>state := committed,
              slowPathTimer := \<lparr>timeout = 2, ticksLeft = 1, armed = False\<rparr>\<rparr>"
  let ?out = "[Broadcast (Commit \<lparr>Command = Some 7, SeqNum = 1, Deps = []\<rparr>), PrepareToExecute]
                :: nat effect list"
  have g: "timerGuarded (leaderInstance 1 False)"
    by (simp add: timerGuarded_def leaderInstance_def newInstance_def makeTickingTimer_def)
  have l: "\<forall>ev \<in> set ?evs. leaderEvent ev" by simp
  have rn: "run ?p (leaderInstance 1 False) ?evs = Inr (?f, ?out)"
    by (simp add: onPreAcceptOK_def onEitherPreAcceptReply_def transitionToCommit_def
        assertState_def broadcastCommit_def instanceState_def instanceStateWithoutCommand_def
        depSlice_def fastPathAvailable_def tick_def isSet_def registerOneTimeTimer_def
        unregisterTimer_def leaderInstance_def thresholdEnv_def newInstance_def
        makeTickingTimer_def slowPathTimout_def Let_def)
  have s: "state ?f \<noteq> preAccepted" by simp
  note T = slow_path_timer_fires_only_in_preAccepted[OF disjI1, OF conjI, OF g l, of ?p ?f ?out]
  have n: "run ?p (leaderInstance 1 False) ?evs \<noteq> Inl UnexpectedState"
    by (rule T[THEN conjunct1])
  have t: "\<not> isSet (slowPathTimer ?f) \<and> tick ?f = Inr (?f, [])"
    by (rule T[THEN conjunct2, THEN mp, OF rn, THEN conjunct2, THEN mp, OF s])
  let ?fevs = "[Deliver (PreAccept \<lparr>Command = Some (7::nat), SeqNum = 1, Deps = []\<rparr>), Tick,
                 Deliver (Commit \<lparr>Command = Some 7, SeqNum = 1, Deps = []\<rparr>), Tick]"
  let ?ff = "(newInstance (0::nat) 0 1)\<lparr>cmd := 7, seq := 1, deps := Some {||}, state := committed\<rparr>"
  have u: "\<not> isSet (slowPathTimer (newInstance (0::nat) 0 1))"
    by (simp add: isSet_def newInstance_def makeTickingTimer_def)
  have fl: "\<forall>ev \<in> set ?fevs. followerEvent ev" by simp
  have frn: "run ?p (newInstance (0::nat) 0 1) ?fevs = Inr (?ff, [Reply PreAcceptOK, PrepareToExecute])"
    by (simp add: onPreAccept_def onCommit_def updateInstanceState_def lenDeps_def MaxSeqNum_def
        tick_def thresholdEnv_def newInstance_def makeTickingTimer_def fcard_fempty Let_def)
  have fs: "state ?ff \<noteq> preAccepted" by simp
  note F = slow_path_timer_fires_only_in_preAccepted[OF disjI2, OF conjI, OF u fl,
      of ?p ?ff "[Reply PreAcceptOK, PrepareToExecute]"]
  have ft: "\<not> isSet (slowPathTimer ?ff) \<and> tick ?ff = Inr (?ff, [])"
    by (rule F[THEN conjunct2, THEN mp, OF frn, THEN conjunct2, THEN mp, OF fs])
  have le: "leaderEvent (Deliver PreAcceptOK :: nat event)" "leaderEvent (Tick :: nat event)"
    by simp_all
  have fe: "followerEvent (Deliver (PreAccept \<lparr>Command = Some (7::nat), SeqNum = 1, Deps = []\<rparr>))"
    "followerEvent (Deliver (Commit \<lparr>Command = Some (7::nat), SeqNum = 1, Deps = []\<rparr>))"
    by simp_all
  show ?thesis
    by (intro conjI g le rn n s t[THEN conjunct1] t[THEN conjunct2] u fe frn ft[THEN conjunct2])
qed

end
